theory Spec2Isabelle
  imports Main
begin

section \<open>Data model (db/schema.ts)\<close>

text \<open>
  The tables of the moderation database, one record per row type. Timestamps are
  milliseconds since the epoch (\<open>Date.now()\<close>), nullable columns are options, integer
  columns are unbounded integers. The column \<open>type\<close> of punishment rules is text in the
  schema; the routes that create and update rules reject every value other than
  \<open>"ban"\<close> and \<open>"mute"\<close>, so it is a two-valued datatype here.
\<close>

datatype PunishType = Ban | Mute

record User =
  uid :: string
  username :: string
  totalPoints :: int
  isBanned :: bool
  isMuted :: bool
  muteExpiresAt :: "int option"

record WarningLevel =
  lid :: int
  name :: string
  color :: string
  levelPoints :: int
  deleteMessage :: bool
  description :: string

record Warning =
  wid :: int
  userId :: string
  levelId :: int
  points :: int
  ruleTriggered :: string
  messageContent :: string
  messageContext :: "(string \<times> string) list"
  createdAt :: int
  messageDeleted :: bool
  messageIgnored :: bool
  ignoredAt :: "int option"
  ignoredBy :: "string option"
  ignoreReason :: "string option"

record Punishment =
  pUserId :: string
  pType :: PunishType
  reason :: string
  pDuration :: "int option"
  expiresAt :: "int option"

record PunishmentRule =
  rid :: int
  ptype :: PunishType
  pointThreshold :: int
  duration :: "int option"
  isActive :: bool

record DB =
  users :: "User list"
  warningLevels :: "WarningLevel list"
  warnings :: "Warning list"
  punishments :: "Punishment list"
  punishmentRules :: "PunishmentRule list"

text \<open>The verdict of \<open>analyzeMessage\<close> (the content classifier), as the handlers read it.\<close>

record Analysis =
  warningLevel :: string
  aRuleTriggered :: string
  aDeleteMessage :: bool
  aPoints :: int

datatype Response =
    Status nat string
  | ModerateNone
  | ModerateResult string int int "PunishType option"
  | WarningJson Warning
  | UserJson "User option"
  | Success

datatype HandlerResult = Skipped | Notified int "PunishType option"

section \<open>Queries and updates\<close>

definition findUser :: "DB \<Rightarrow> string \<Rightarrow> User option" where
  "findUser db i = find (\<lambda>u. uid u = i) (users db)"

definition findWarning :: "DB \<Rightarrow> int \<Rightarrow> Warning option" where
  "findWarning db i = find (\<lambda>w. wid w = i) (warnings db)"

definition findLevel :: "DB \<Rightarrow> string \<Rightarrow> WarningLevel option" where
  "findLevel db n = find (\<lambda>l. name l = n) (warningLevels db)"

text \<open>
  \<open>findMany({ where: isActive = true, orderBy: desc(pointThreshold) })\<close>. SQL leaves the
  order of rows with equal thresholds open; here they keep their table order.
\<close>

definition activeRulesDesc :: "DB \<Rightarrow> PunishmentRule list" where
  "activeRulesDesc db = sort_key (\<lambda>r. - pointThreshold r) (filter isActive (punishmentRules db))"

definition updateUsers :: "string \<Rightarrow> (User \<Rightarrow> User) \<Rightarrow> DB \<Rightarrow> DB" where
  "updateUsers i f db = db\<lparr>users := map (\<lambda>u. if uid u = i then f u else u) (users db)\<rparr>"

definition updateWarnings :: "(Warning \<Rightarrow> bool) \<Rightarrow> (Warning \<Rightarrow> Warning) \<Rightarrow> DB \<Rightarrow> DB" where
  "updateWarnings P f db = db\<lparr>warnings := map (\<lambda>w. if P w then f w else w) (warnings db)\<rparr>"

definition insertUser :: "string \<Rightarrow> string \<Rightarrow> DB \<Rightarrow> DB" where
  "insertUser i n db =
     db\<lparr>users := users db @
       [\<lparr>uid = i, username = n, totalPoints = 0, isBanned = False, isMuted = False,
         muteExpiresAt = None\<rparr>]\<rparr>"

definition nextSerial :: "int list \<Rightarrow> int" where
  "nextSerial ids = foldr max ids 0 + 1"

definition insertWarning ::
  "int \<Rightarrow> string \<Rightarrow> WarningLevel \<Rightarrow> string \<Rightarrow> string \<Rightarrow> bool \<Rightarrow> DB \<Rightarrow> DB" where
  "insertWarning now i level rule content deleted db =
     db\<lparr>warnings := warnings db @
       [\<lparr>wid = nextSerial (map wid (warnings db)), userId = i, levelId = lid level,
         points = levelPoints level, ruleTriggered = rule, messageContent = content,
         messageContext = [], createdAt = now, messageDeleted = deleted,
         messageIgnored = False, ignoredAt = None, ignoredBy = None, ignoreReason = None\<rparr>]\<rparr>"

definition insertPunishment :: "Punishment \<Rightarrow> DB \<Rightarrow> DB" where
  "insertPunishment p db = db\<lparr>punishments := punishments db @ [p]\<rparr>"

text \<open>\<open>rule.duration || 60\<close>: a null or zero duration counts as 60.\<close>

definition durationOr60 :: "int option \<Rightarrow> int" where
  "durationOr60 d = (case d of None \<Rightarrow> 60 | Some n \<Rightarrow> if n = 0 then 60 else n)"

definition muteExpiry :: "int \<Rightarrow> int option \<Rightarrow> int" where
  "muteExpiry now d = now + durationOr60 d * 60 * 1000"

text \<open>The sum of the points of a user's warnings that are not ignored.\<close>

definition activeWarnings :: "DB \<Rightarrow> string \<Rightarrow> Warning list" where
  "activeWarnings db i = filter (\<lambda>w. userId w = i \<and> \<not> messageIgnored w) (warnings db)"

definition pointsSum :: "DB \<Rightarrow> string \<Rightarrow> int" where
  "pointsSum db i = foldl (\<lambda>s w. s + points w) 0 (activeWarnings db i)"


text \<open>
  The schema declares \<open>warnings.ignored_by\<close> as a reference to \<open>users.id\<close>. An update
  that writes a value with no such user row is refused by the store; the statement
  changes nothing, throws, and the route's \<open>catch\<close> answers with status 500.
\<close>

definition isUserRef :: "DB \<Rightarrow> string \<Rightarrow> bool" where
  "isUserRef db i = (findUser db i \<noteq> None)"

definition storeError :: string where
  "storeError = ''violates foreign key constraint''"

text \<open>
  The integer columns (\<open>total_points\<close>, \<open>points\<close>, the serial ids) are 32-bit. The
  values a handler reads from a row are in that range; a value it computes (a total) or
  takes from the request (a warning id) may not be. The store refuses a statement that
  carries a value outside the range: the statement changes nothing, throws, and the
  handler's \<open>catch\<close> logs the error; the routes answer with status 500. Statements
  that ran before the refused one stay in effect, since no handler opens a transaction.
\<close>

definition int32 :: "int \<Rightarrow> bool" where
  "int32 v = (- 2147483648 \<le> v \<and> v \<le> 2147483647)"

definition rangeError :: string where
  "rangeError = ''integer out of range''"

text \<open>
  The text columns cannot hold a NUL character. The ids and names a handler reads from
  a row have none; a string taken from the request or from the classifier may. The
  store refuses a statement that carries such a string, with the same effect as above.
\<close>

definition storable :: "string \<Rightarrow> bool" where
  "storable s = (CHR 0x00 \<notin> set s)"

definition textError :: string where
  "textError = ''invalid byte sequence for encoding''"

section \<open>recordWarning: the test route \<open>POST /api/test/moderate\<close>\<close>

fun moderateLoop ::
  "int \<Rightarrow> string \<Rightarrow> User \<Rightarrow> int \<Rightarrow> PunishmentRule list \<Rightarrow> DB \<Rightarrow> DB \<times> PunishType option" where
  "moderateLoop now i user newTotalPoints [] db = (db, None)"
| "moderateLoop now i user newTotalPoints (rule # rest) db =
     (if newTotalPoints \<ge> pointThreshold rule then
        (if ptype rule = Ban then
           (insertPunishment
              \<lparr>pUserId = i, pType = Ban, reason = ''Exceeded maximum warning points'',
               pDuration = None, expiresAt = None\<rparr>
              (updateUsers i (\<lambda>u. u\<lparr>isBanned := True\<rparr>) db),
            Some Ban)
         else if ptype rule = Mute \<and> \<not> isMuted user then
           (insertPunishment
              \<lparr>pUserId = i, pType = Mute, reason = ''Accumulated warning points'',
               pDuration = Some (durationOr60 (duration rule)),
               expiresAt = Some (muteExpiry now (duration rule))\<rparr>
              (updateUsers i
                 (\<lambda>u. u\<lparr>isMuted := True, muteExpiresAt := Some (muteExpiry now (duration rule))\<rparr>)
                 db),
            Some Mute)
         else moderateLoop now i user newTotalPoints rest db)
      else moderateLoop now i user newTotalPoints rest db)"

text \<open>
  The route, from the verdict of the classifier on. The third component is what the
  route writes with \<open>console.error\<close>.
\<close>

definition testModerate ::
  "int \<Rightarrow> string \<Rightarrow> string \<Rightarrow> string \<Rightarrow> Analysis \<Rightarrow> DB \<Rightarrow> Response \<times> DB \<times> string list" where
  "testModerate now content i uname warning db =
     (if content = [] \<or> i = [] \<or> uname = [] then (Status 400 ''Missing required fields'', db, [])
      else if warningLevel warning = ''none'' then (ModerateNone, db, [])
      else case findLevel db (warningLevel warning) of
        None \<Rightarrow> (Status 500 ''Warning level not found'', db, [''Warning level not found''])
      | Some level \<Rightarrow>
          if findUser db i = None \<and> \<not> (storable i \<and> storable uname)
          then (Status 500 textError, db, [''Error in test moderation''])
          else
          let db1 = (case findUser db i of None \<Rightarrow> insertUser i uname db | Some _ \<Rightarrow> db) in
          (case findUser db1 i of
             None \<Rightarrow> (Status 500 ''Failed to create user'', db1, [])
           | Some user \<Rightarrow>
               let db2 = insertWarning now i level (aRuleTriggered warning) content
                           (aDeleteMessage warning) db1;
                   newTotalPoints = totalPoints user + levelPoints level;
                   db3 = updateUsers i (\<lambda>u. u\<lparr>totalPoints := newTotalPoints\<rparr>) db2;
                   r = moderateLoop now i user newTotalPoints (activeRulesDesc db3) db3
               in if \<not> (storable (aRuleTriggered warning) \<and> storable content)
                  then (Status 500 textError, db1, [''Error in test moderation''])
                  else if \<not> int32 newTotalPoints
                  then (Status 500 rangeError, db2, [''Error in test moderation''])
                  else (ModerateResult (warningLevel warning) (levelPoints level)
                          newTotalPoints (snd r),
                        fst r, [])))"

section \<open>recordWarning: the Discord \<open>MessageCreate\<close> handler\<close>

text \<open>
  \<open>safeApplyPunishment\<close> calls the platform and answers whether the call succeeded; it
  is the parameter \<open>exec\<close>. The loop stops at the first rule whose punishment was
  applied, and goes on to the next rule after a failure, which it logs.
\<close>

fun punishLoop ::
  "(PunishType \<Rightarrow> int option \<Rightarrow> bool) \<Rightarrow> int \<Rightarrow> string \<Rightarrow> int \<Rightarrow> PunishmentRule list \<Rightarrow> DB
     \<Rightarrow> DB \<times> PunishType option \<times> string list" where
  "punishLoop exec now i newTotalPoints [] db = (db, None, [])"
| "punishLoop exec now i newTotalPoints (rule # rest) db =
     (if newTotalPoints \<ge> pointThreshold rule then
        (if exec (ptype rule) (duration rule) then
           (insertPunishment
              \<lparr>pUserId = i, pType = ptype rule, reason = ''Accumulated warning points'',
               pDuration = (if ptype rule = Mute then duration rule else None),
               expiresAt = (if ptype rule = Mute then Some (muteExpiry now (duration rule))
                            else None)\<rparr>
              db,
            Some (ptype rule), [])
         else (case punishLoop exec now i newTotalPoints rest db of
                 (db', applied, lg) \<Rightarrow> (db', applied, ''Failed to apply punishment'' # lg)))
      else punishLoop exec now i newTotalPoints rest db)"

definition handleMessage ::
  "(PunishType \<Rightarrow> int option \<Rightarrow> bool) \<Rightarrow> int \<Rightarrow> string \<Rightarrow> string \<Rightarrow> Analysis \<Rightarrow> DB
     \<Rightarrow> HandlerResult \<times> DB \<times> string list" where
  "handleMessage exec now authorId authorName analysis db =
     (if warningLevel analysis = ''none'' then (Skipped, db, [])
      else case findLevel db (warningLevel analysis) of
        None \<Rightarrow> (Skipped, db, [''Warning level not found''])
      | Some level \<Rightarrow>
          if findUser db authorId = None \<and> \<not> (storable authorId \<and> storable authorName)
          then (Skipped, db, [''Error in punishment processing''])
          else
          let db1 = (case findUser db authorId of
                       None \<Rightarrow> insertUser authorId authorName db | Some _ \<Rightarrow> db) in
          (case findUser db1 authorId of
             None \<Rightarrow> (Skipped, db1, [''Failed to get/create user''])
           | Some user \<Rightarrow>
               let newTotalPoints = totalPoints user + levelPoints level;
                   db2 = updateUsers authorId (\<lambda>u. u\<lparr>totalPoints := newTotalPoints\<rparr>) db1
               in if \<not> int32 newTotalPoints
                  then (Skipped, db1, [''Error in punishment processing''])
                  else (case punishLoop exec now authorId newTotalPoints
                               (activeRulesDesc db2) db2 of
                          (db3, applied, lg) \<Rightarrow> (Notified newTotalPoints applied, db3, lg))))"

section \<open>ignoreWarning: \<open>POST /api/warnings/:id/ignore\<close>\<close>

fun removalLoop :: "int \<Rightarrow> PunishmentRule list \<Rightarrow> bool \<times> bool \<Rightarrow> bool \<times> bool" where
  "removalLoop newTotalPoints [] (shouldRemoveBan, shouldRemoveMute) =
     (shouldRemoveBan, shouldRemoveMute)"
| "removalLoop newTotalPoints (rule # rest) (shouldRemoveBan, shouldRemoveMute) =
     (if newTotalPoints \<ge> pointThreshold rule then
        (if ptype rule = Ban then (False, shouldRemoveMute)
         else if ptype rule = Mute then (shouldRemoveBan, False)
         else removalLoop newTotalPoints rest (shouldRemoveBan, shouldRemoveMute))
      else removalLoop newTotalPoints rest (shouldRemoveBan, shouldRemoveMute))"

definition ignoreWarning :: "int \<Rightarrow> int \<Rightarrow> string \<Rightarrow> string \<Rightarrow> DB \<Rightarrow> Response \<times> DB" where
  "ignoreWarning now i reviewer why db =
     (if reviewer = [] \<or> why = [] then (Status 400 ''Missing required fields'', db)
      else if \<not> int32 i then (Status 500 rangeError, db)
      else case findWarning db i of
        None \<Rightarrow> (Status 404 ''Warning not found'', db)
      | Some warning \<Rightarrow>
          (case findUser db (userId warning) of
             None \<Rightarrow> (Status 404 ''User not found'', db)
           | Some user \<Rightarrow>
               if \<not> (storable reviewer \<and> storable why) then (Status 500 textError, db)
               else if \<not> isUserRef db reviewer then (Status 500 storeError, db)
               else
                 let db1 = updateWarnings (\<lambda>w. wid w = i)
                             (\<lambda>w. w\<lparr>messageIgnored := True, ignoredAt := Some now,
                                    ignoredBy := Some reviewer, ignoreReason := Some why\<rparr>) db;
                     newTotalPoints = totalPoints user - points warning;
                     db2 = updateUsers (uid user) (\<lambda>u. u\<lparr>totalPoints := newTotalPoints\<rparr>) db1;
                     rm = removalLoop newTotalPoints (activeRulesDesc db2)
                            (isBanned user, isMuted user);
                     db3 = (if fst rm \<or> snd rm then
                              updateUsers (uid user)
                                (\<lambda>u. u\<lparr>isBanned := (if \<not> fst rm then isBanned user else False),
                                       isMuted := (if \<not> snd rm then isMuted user else False),
                                       muteExpiresAt :=
                                         (if \<not> snd rm then muteExpiresAt user else None)\<rparr>)
                                db2
                            else db2)
                 in if \<not> int32 newTotalPoints then (Status 500 rangeError, db1)
                    else (case findWarning db3 i of
                            None \<Rightarrow> (Status 404 ''Warning not found after update'', db3)
                          | Some updatedWarning \<Rightarrow> (WarningJson updatedWarning, db3))))"

section \<open>recalculate: \<open>POST /api/users/:userId/recalculate\<close>\<close>

fun recalcLoop ::
  "int \<Rightarrow> int \<Rightarrow> PunishmentRule list \<Rightarrow> bool \<times> bool \<times> int option \<Rightarrow> bool \<times> bool \<times> int option" where
  "recalcLoop now newTotalPoints [] s = s"
| "recalcLoop now newTotalPoints (rule # rest) (shouldBeBanned, shouldBeMuted, expires) =
     (if newTotalPoints \<ge> pointThreshold rule then
        (if ptype rule = Ban then (True, shouldBeMuted, expires)
         else if ptype rule = Mute then
           recalcLoop now newTotalPoints rest
             (shouldBeBanned, True, Some (muteExpiry now (duration rule)))
         else recalcLoop now newTotalPoints rest (shouldBeBanned, shouldBeMuted, expires))
      else recalcLoop now newTotalPoints rest (shouldBeBanned, shouldBeMuted, expires))"

definition recalculate :: "int \<Rightarrow> string \<Rightarrow> DB \<Rightarrow> Response \<times> DB" where
  "recalculate now i db =
     (case findUser db i of
        None \<Rightarrow> (Status 404 ''User not found'', db)
      | Some user \<Rightarrow>
          let newTotalPoints = pointsSum db i;
              s = recalcLoop now newTotalPoints (activeRulesDesc db) (False, False, None);
              db' = updateUsers i
                      (\<lambda>u. u\<lparr>totalPoints := newTotalPoints, isBanned := fst s,
                             isMuted := fst (snd s),
                             muteExpiresAt := (if fst (snd s) then snd (snd s) else None)\<rparr>)
                      db
          in if \<not> int32 newTotalPoints then (Status 500 rangeError, db)
             else (UserJson (findUser db' i), db'))"

section \<open>resetWarnings: \<open>POST /api/users/:userId/reset-warnings\<close>\<close>

definition resetWarnings :: "int \<Rightarrow> string \<Rightarrow> DB \<Rightarrow> Response \<times> DB" where
  "resetWarnings now i db =
     (case findUser db i of
        None \<Rightarrow> (Status 404 ''User not found'', db)
      | Some user \<Rightarrow>
          if (\<exists>w \<in> set (warnings db). userId w = i) \<and> \<not> isUserRef db ''system''
          then (Status 500 storeError, db)
          else
            let db1 = updateWarnings (\<lambda>w. userId w = i)
                        (\<lambda>w. w\<lparr>messageIgnored := True, ignoredAt := Some now,
                               ignoredBy := Some ''system'',
                               ignoreReason := Some ''Reset for testing purposes''\<rparr>) db;
                db2 = updateUsers i
                        (\<lambda>u. u\<lparr>totalPoints := 0, isBanned := False, isMuted := False,
                               muteExpiresAt := None\<rparr>) db1
            in (Success, db2))"


section \<open>Notions of the specification\<close>

text \<open>
  The specification's applicable rule: the first rule of the list, ordered by
  descending threshold, whose threshold is at most the point total.
\<close>

definition applicableRule :: "int \<Rightarrow> PunishmentRule list \<Rightarrow> PunishmentRule option" where
  "applicableRule t rules = find (\<lambda>r. pointThreshold r \<le> t) rules"

text \<open>
  The first rule of the list whose threshold is met and for which the platform call
  succeeds.
\<close>

definition firstApplied ::
  "(PunishType \<Rightarrow> int option \<Rightarrow> bool) \<Rightarrow> int \<Rightarrow> PunishmentRule list \<Rightarrow> PunishmentRule option" where
  "firstApplied exec t rules = find (\<lambda>r. pointThreshold r \<le> t \<and> exec (ptype r) (duration r)) rules"

text \<open>Some active rule of the given type has its threshold met by the point total.\<close>

definition ruleMet :: "PunishType \<Rightarrow> int \<Rightarrow> DB \<Rightarrow> bool" where
  "ruleMet ty t db =
     (\<exists>r \<in> set (punishmentRules db). isActive r \<and> ptype r = ty \<and> pointThreshold r \<le> t)"

text \<open>
  The mute rules with a met threshold that a scan of the rules reaches before it stops
  at the first ban rule with a met threshold.
\<close>

definition scannedMutes :: "int \<Rightarrow> PunishmentRule list \<Rightarrow> PunishmentRule list" where
  "scannedMutes t rules =
     filter (\<lambda>r. pointThreshold r \<le> t \<and> ptype r = Mute)
       (takeWhile (\<lambda>r. \<not> (pointThreshold r \<le> t \<and> ptype r = Ban)) rules)"

text \<open>
  The specification compares level names without regard to case; the handlers compare
  with the equality of the store. Lower case of the ASCII letters:
\<close>

definition lowerChar :: "char \<Rightarrow> char" where
  "lowerChar c =
     (if 65 \<le> (of_char c :: nat) \<and> (of_char c :: nat) \<le> 90
      then char_of ((of_char c :: nat) + 32) else c)"

definition toLowerCase :: "string \<Rightarrow> string" where
  "toLowerCase s = map lowerChar s"

section \<open>Example data\<close>

definition mkRule :: "int \<Rightarrow> PunishType \<Rightarrow> int \<Rightarrow> int option \<Rightarrow> bool \<Rightarrow> PunishmentRule" where
  "mkRule n ty th d a = \<lparr>rid = n, ptype = ty, pointThreshold = th, duration = d, isActive = a\<rparr>"

definition mkUser :: "string \<Rightarrow> int \<Rightarrow> bool \<Rightarrow> bool \<Rightarrow> int option \<Rightarrow> User" where
  "mkUser i p b m e =
     \<lparr>uid = i, username = i, totalPoints = p, isBanned = b, isMuted = m, muteExpiresAt = e\<rparr>"

definition mkWarning :: "int \<Rightarrow> string \<Rightarrow> int \<Rightarrow> string option \<Rightarrow> Warning" where
  "mkWarning n i p reviewer =
     \<lparr>wid = n, userId = i, levelId = 3, points = p, ruleTriggered = ''spam'',
      messageContent = ''text'', messageContext = [], createdAt = 0, messageDeleted = False,
      messageIgnored = (reviewer \<noteq> None), ignoredAt = map_option (\<lambda>_. 0) reviewer,
      ignoredBy = reviewer, ignoreReason = map_option (\<lambda>_. ''false alarm'') reviewer\<rparr>"

text \<open>The levels of the specification's scenario: yellow 1, orange 3, red 5.\<close>

definition exLevels :: "WarningLevel list" where
  "exLevels =
     [\<lparr>lid = 1, name = ''yellow'', color = ''#ff0'', levelPoints = 1, deleteMessage = False,
       description = ''minor''\<rparr>,
      \<lparr>lid = 2, name = ''orange'', color = ''#f80'', levelPoints = 3, deleteMessage = False,
       description = ''medium''\<rparr>,
      \<lparr>lid = 3, name = ''red'', color = ''#f00'', levelPoints = 5, deleteMessage = True,
       description = ''severe''\<rparr>]"

definition mkDB :: "User list \<Rightarrow> Warning list \<Rightarrow> PunishmentRule list \<Rightarrow> DB" where
  "mkDB us ws rs =
     \<lparr>users = us, warningLevels = exLevels, warnings = ws, punishments = [],
      punishmentRules = rs\<rparr>"

definition redVerdict :: Analysis where
  "redVerdict =
     \<lparr>warningLevel = ''red'', aRuleTriggered = ''spam'', aDeleteMessage = True, aPoints = 5\<rparr>"

text \<open>A platform on which every ban call fails and every timeout call succeeds.\<close>

definition banCallFails :: "PunishType \<Rightarrow> int option \<Rightarrow> bool" where
  "banCallFails ty d = (ty = Mute)"

definition callSucceeds :: "PunishType \<Rightarrow> int option \<Rightarrow> bool" where
  "callSucceeds ty d = True"

text \<open>A muted user at 5 points; a mute rule at 10 above a ban rule at 5.\<close>

definition dbMutedBanBelow :: DB where
  "dbMutedBanBelow =
     mkDB [mkUser ''u1'' 5 False True (Some 99)] [mkWarning 1 ''u1'' 5 None]
       [mkRule 1 Mute 10 (Some 60) True, mkRule 2 Ban 5 None True]"

text \<open>A user at 5 points; the rules mute at 5 and ban at 10, in both insertion orders.\<close>

definition dbMute5Ban10 :: DB where
  "dbMute5Ban10 =
     mkDB [mkUser ''u1'' 5 False False None] [mkWarning 1 ''u1'' 5 None]
       [mkRule 1 Mute 5 (Some 60) True, mkRule 2 Ban 10 None True]"

definition dbBan10Mute5 :: DB where
  "dbBan10Mute5 =
     mkDB [mkUser ''u1'' 5 False False None] [mkWarning 1 ''u1'' 5 None]
       [mkRule 1 Ban 10 None True, mkRule 2 Mute 5 (Some 60) True]"

text \<open>Two live warnings of 5 points; the rules mute at 5 and ban at 10.\<close>

definition dbTwoWarnings :: DB where
  "dbTwoWarnings =
     mkDB [mkUser ''u1'' 10 False False None]
       [mkWarning 1 ''u1'' 5 None, mkWarning 2 ''u1'' 5 None]
       [mkRule 1 Mute 5 (Some 60) True, mkRule 2 Ban 10 None True]"

text \<open>A muted user at 8 points after the mute rule was deactivated; ban at 10 is active.\<close>

definition dbMuteRuleOff :: DB where
  "dbMuteRuleOff =
     mkDB [mkUser ''u1'' 8 False True (Some 99)]
       [mkWarning 1 ''u1'' 5 None, mkWarning 2 ''u1'' 3 None]
       [mkRule 1 Mute 5 (Some 60) False, mkRule 2 Ban 10 None True]"

text \<open>Live warnings of 8 points; two mute rules, at 5 for 30 minutes and at 8 for 120.\<close>

definition dbTwoMutes :: DB where
  "dbTwoMutes =
     mkDB [mkUser ''u1'' 0 False False None]
       [mkWarning 1 ''u1'' 5 None, mkWarning 2 ''u1'' 3 None]
       [mkRule 1 Mute 5 (Some 30) True, mkRule 2 Mute 8 (Some 120) True]"



text \<open>The columns of a warning outside its ignore sub-record.\<close>

definition auditFields ::
  "Warning \<Rightarrow> int \<times> string \<times> int \<times> int \<times> string \<times> string \<times> (string \<times> string) list \<times> int \<times> bool" where
  "auditFields w =
     (wid w, userId w, levelId w, points w, ruleTriggered w, messageContent w,
      messageContext w, createdAt w, messageDeleted w)"

text \<open>
  A user with one warning already ignored by a moderator and one live warning; a
  moderator with a warning of their own; the system user.
\<close>

definition dbReviewed :: DB where
  "dbReviewed =
     mkDB [mkUser ''u1'' 5 False True (Some 99), mkUser ''mod1'' 0 False False None,
           mkUser ''system'' 0 False False None]
       [mkWarning 1 ''u1'' 5 (Some ''mod1''), mkWarning 2 ''u1'' 5 None,
        mkWarning 3 ''mod1'' 1 None]
       [mkRule 1 Mute 5 (Some 60) True, mkRule 2 Ban 10 None True]"

text \<open>
  The ledger write of the Discord handler: the user row is created when missing and the
  new total stored, before any punishment is attempted.
\<close>

definition ledgerWritten :: "string \<Rightarrow> string \<Rightarrow> int \<Rightarrow> DB \<Rightarrow> DB" where
  "ledgerWritten a n t db =
     updateUsers a (\<lambda>u. u\<lparr>totalPoints := t\<rparr>)
       (case findUser db a of None \<Rightarrow> insertUser a n db | Some _ \<Rightarrow> db)"

text \<open>The total the handlers compute: the stored total, 0 for a new user, plus the level's points.\<close>

definition totalAfter :: "DB \<Rightarrow> string \<Rightarrow> WarningLevel \<Rightarrow> int" where
  "totalAfter db a level =
     (case findUser db a of None \<Rightarrow> 0 | Some u \<Rightarrow> totalPoints u) + levelPoints level"

definition redLevel :: WarningLevel where
  "redLevel = \<lparr>lid = 3, name = ''red'', color = ''#f00'', levelPoints = 5, deleteMessage = True,
                description = ''severe''\<rparr>"

text \<open>A verdict naming a level that is not configured.\<close>

definition purpleVerdict :: Analysis where
  "purpleVerdict = \<lparr>warningLevel = ''Purple'', aRuleTriggered = ''spam'', aDeleteMessage = False,
                     aPoints = 2\<rparr>"

text \<open>The user row a handler works with: the stored row, or the row it creates.\<close>

definition userOrNew :: "DB \<Rightarrow> string \<Rightarrow> string \<Rightarrow> User" where
  "userOrNew db i n =
     (case findUser db i of
        None \<Rightarrow> \<lparr>uid = i, username = n, totalPoints = 0, isBanned = False, isMuted = False,
                  muteExpiresAt = None\<rparr>
      | Some u \<Rightarrow> u)"

text \<open>
  The ledger write of the test route: the user row is created when missing, the warning
  inserted and the new total stored, before the punishment rules are read.
\<close>

definition warningRecorded :: "int \<Rightarrow> string \<Rightarrow> string \<Rightarrow> WarningLevel \<Rightarrow> Analysis \<Rightarrow> string \<Rightarrow> DB \<Rightarrow> DB" where
  "warningRecorded now i n level verdict content db =
     updateUsers i (\<lambda>u. u\<lparr>totalPoints := totalAfter db i level\<rparr>)
       (insertWarning now i level (aRuleTriggered verdict) content (aDeleteMessage verdict)
          (case findUser db i of None \<Rightarrow> insertUser i n db | Some _ \<Rightarrow> db))"

text \<open>The audit row of a ban.\<close>

definition banRow :: "string \<Rightarrow> string \<Rightarrow> Punishment" where
  "banRow i why = \<lparr>pUserId = i, pType = Ban, reason = why, pDuration = None, expiresAt = None\<rparr>"

text \<open>A user at 0 points whose only warning was ignored by a moderator.\<close>

definition dbOnceIgnored :: DB where
  "dbOnceIgnored =
     mkDB [mkUser ''u1'' 0 False False None, mkUser ''mod1'' 0 False False None]
       [mkWarning 1 ''u1'' 5 (Some ''mod1'')] [mkRule 1 Mute 5 (Some 60) True]"

text \<open>A platform on which every call fails.\<close>

definition callFails :: "PunishType \<Rightarrow> int option \<Rightarrow> bool" where
  "callFails ty d = False"

text \<open>
  Two live warnings whose points, each in the range of the column, sum to 2147483648;
  a mute rule at 5.
\<close>

definition dbSumTooLarge :: DB where
  "dbSumTooLarge =
     mkDB [mkUser ''u1'' 0 False False None]
       [mkWarning 1 ''u1'' 2147483647 None, mkWarning 2 ''u1'' 1 None]
       [mkRule 1 Mute 5 (Some 60) True]"

text \<open>A user whose total is the largest value of the column; a ban rule at 10.\<close>

definition dbAtMaxTotal :: DB where
  "dbAtMaxTotal =
     mkDB [mkUser ''u1'' 2147483647 False False None]
       [mkWarning 1 ''u1'' 2147483647 None]
       [mkRule 1 Ban 10 None True]"

section \<open>The rule list\<close>

lemmas ex_defs = mkRule_def mkUser_def mkWarning_def exLevels_def mkDB_def redVerdict_def
  banCallFails_def callSucceeds_def callFails_def

lemmas op_defs = activeRulesDesc_def findLevel_def findUser_def findWarning_def
  insertUser_def insertWarning_def updateUsers_def updateWarnings_def insertPunishment_def
  nextSerial_def durationOr60_def muteExpiry_def isUserRef_def activeWarnings_def pointsSum_def
  int32_def storable_def

lemma set_activeRulesDesc:
  "set (activeRulesDesc db) = {r \<in> set (punishmentRules db). isActive r}"
  by (auto simp: activeRulesDesc_def)

lemma ruleMet_active:
  "ruleMet ty t db = (\<exists>r \<in> set (activeRulesDesc db). pointThreshold r \<le> t \<and> ptype r = ty)"
  by (auto simp: ruleMet_def set_activeRulesDesc)

lemma sorted_activeRulesDesc:
  "sorted (map (\<lambda>r. - pointThreshold r) (activeRulesDesc db))"
  by (simp add: activeRulesDesc_def)

lemma applicableRule_Nil: "applicableRule t [] = None"
  by (simp add: applicableRule_def)

lemma applicableRule_Cons:
  "applicableRule t (r # rs) = (if pointThreshold r \<le> t then Some r else applicableRule t rs)"
  by (simp add: applicableRule_def)

lemma applicableRule_None:
  "applicableRule t rules = None \<longleftrightarrow> \<not> (\<exists>r \<in> set rules. pointThreshold r \<le> t)"
  by (auto simp: applicableRule_def find_None_iff)

lemma applicableRule_sorted_max:
  "sorted (map (\<lambda>r. - pointThreshold r) rules) \<Longrightarrow> applicableRule t rules = Some r \<Longrightarrow>
   r \<in> set rules \<and> pointThreshold r \<le> t \<and>
   (\<forall>r' \<in> set rules. pointThreshold r' \<le> t \<longrightarrow> pointThreshold r' \<le> pointThreshold r)"
proof (induction rules)
  case Nil
  then show ?case by (simp add: applicableRule_Nil)
next
  case (Cons a rs)
  show ?case
  proof (cases "pointThreshold a \<le> t")
    case True
    with Cons.prems have "r = a" by (simp add: applicableRule_Cons)
    with True Cons.prems(1) show ?thesis by auto
  next
    case False
    with Cons.prems have "applicableRule t rs = Some r" by (simp add: applicableRule_Cons)
    moreover from Cons.prems(1) have "sorted (map (\<lambda>r. - pointThreshold r) rs)" by simp
    ultimately have "r \<in> set rs \<and> pointThreshold r \<le> t \<and>
      (\<forall>r' \<in> set rs. pointThreshold r' \<le> t \<longrightarrow> pointThreshold r' \<le> pointThreshold r)"
      using Cons.IH by blast
    with False show ?thesis by auto
  qed
qed

lemma moderateLoop_applicable:
  "\<not> isMuted user \<Longrightarrow>
   snd (moderateLoop now i user t rules db) = map_option ptype (applicableRule t rules)"
proof (induction rules)
  case Nil
  then show ?case by (simp add: applicableRule_Nil)
next
  case (Cons r rs)
  then show ?case by (cases "ptype r") (simp_all add: applicableRule_Cons)
qed

lemma punishLoop_applicable:
  "applicableRule t rules = Some r \<Longrightarrow> exec (ptype r) (duration r) \<Longrightarrow>
   fst (snd (punishLoop exec now i t rules db)) = Some (ptype r)"
proof (induction rules)
  case Nil
  then show ?case by (simp add: applicableRule_Nil)
next
  case (Cons a rs)
  then show ?case by (auto simp: applicableRule_Cons split: if_splits)
qed

lemma sorted_desc_hd:
  "sorted (map (\<lambda>r. - pointThreshold r) rules) \<Longrightarrow> b \<in> set rules \<Longrightarrow>
   \<exists>a rest. rules = a # rest \<and> pointThreshold b \<le> pointThreshold a"
  by (cases rules) auto

lemma moderateLoop_top_ban:
  assumes "\<forall>r \<in> set rules. (ptype r = Ban \<and> pointThreshold r = 10) \<or> (ptype r = Mute \<and> pointThreshold r = 5)"
      and "\<exists>r \<in> set rules. ptype r = Ban"
      and "sorted (map (\<lambda>r. - pointThreshold r) rules)"
  shows "snd (moderateLoop now i user 10 rules db) = Some Ban"
proof -
  from assms(2) obtain b where b: "b \<in> set rules" "ptype b = Ban" by blast
  with assms(1) have "pointThreshold b = 10" by auto
  with sorted_desc_hd[OF assms(3) b(1)] obtain a rest where
    a: "rules = a # rest" "10 \<le> pointThreshold a" by auto
  with assms(1) have "ptype a = Ban \<and> pointThreshold a = 10" by auto
  with a show ?thesis by simp
qed

section \<open>The scan of recalculate\<close>

lemma recalcLoop_ban:
  "fst (recalcLoop now t rules (b, m, e)) = (b \<or> (\<exists>r \<in> set rules. pointThreshold r \<le> t \<and> ptype r = Ban))"
proof (induction rules arbitrary: b m e)
  case Nil
  show ?case by simp
next
  case (Cons r rs)
  show ?case by (cases "ptype r") (auto simp: Cons.IH)
qed

lemma scannedMutes_Nil: "scannedMutes t [] = []"
  by (simp add: scannedMutes_def)

lemma scannedMutes_Cons:
  "scannedMutes t (r # rs) =
     (if pointThreshold r \<le> t then
        (if ptype r = Ban then [] else r # scannedMutes t rs)
      else scannedMutes t rs)"
  by (cases "ptype r") (simp_all add: scannedMutes_def)

lemma recalcLoop_mute:
  "snd (recalcLoop now t rules (b, m, e)) =
     (if scannedMutes t rules = [] then (m, e)
      else (True, Some (muteExpiry now (duration (last (scannedMutes t rules))))))"
proof (induction rules arbitrary: b m e)
  case Nil
  show ?case by (simp add: scannedMutes_Nil)
next
  case (Cons r rs)
  show ?case by (cases "ptype r") (simp_all add: Cons.IH scannedMutes_Cons)
qed

lemma scannedMutes_no_ban:
  "\<not> (\<exists>r \<in> set rules. pointThreshold r \<le> t \<and> ptype r = Ban) \<Longrightarrow>
   scannedMutes t rules = filter (\<lambda>r. pointThreshold r \<le> t \<and> ptype r = Mute) rules"
  by (simp add: scannedMutes_def takeWhile_eq_all_conv[THEN iffD2])

lemma scannedMutes_subset:
  "set (scannedMutes t rules) \<subseteq> {r \<in> set rules. pointThreshold r \<le> t \<and> ptype r = Mute}"
  by (auto simp: scannedMutes_def dest: set_takeWhileD)

text \<open>
  A ban rule with a met threshold above that of every met mute rule ends the scan before
  any of the mute rules is reached.
\<close>

lemma scannedMutes_ban_above:
  assumes "sorted (map (\<lambda>r. - pointThreshold r) rules)"
      and "b \<in> set rules" "ptype b = Ban" "pointThreshold b \<le> t"
      and "\<forall>r \<in> set rules. ptype r = Mute \<and> pointThreshold r \<le> t \<longrightarrow> pointThreshold r < pointThreshold b"
  shows "scannedMutes t rules = []"
  using assms
proof (induction rules)
  case Nil
  then show ?case by simp
next
  case (Cons a rs)
  show ?case
  proof (cases "a = b")
    case True
    with Cons.prems show ?thesis by (simp add: scannedMutes_Cons)
  next
    case False
    with Cons.prems have brs: "b \<in> set rs" by simp
    with Cons.prems(1) have ge: "pointThreshold b \<le> pointThreshold a" by auto
    have ih: "scannedMutes t rs = []"
      using Cons.IH Cons.prems brs by auto
    show ?thesis
    proof (cases "ptype a")
      case Ban
      then show ?thesis using ih by (simp add: scannedMutes_Cons)
    next
      case Mute
      have "\<not> pointThreshold a \<le> t"
      proof
        assume "pointThreshold a \<le> t"
        with Mute Cons.prems(5) have "pointThreshold a < pointThreshold b" by simp
        with ge show False by simp
      qed
      then show ?thesis using ih by (simp add: scannedMutes_Cons)
    qed
  qed
qed

lemma sorted_le_last: "sorted (xs :: int list) \<Longrightarrow> x \<in> set xs \<Longrightarrow> x \<le> last xs"
  by (induction xs) auto

lemma last_filter_sorted_min:
  assumes "sorted (map (\<lambda>r. - pointThreshold r) rules)" and "r \<in> set (filter P rules)"
  shows "pointThreshold (last (filter P rules)) \<le> pointThreshold r"
proof -
  have "sorted (map (\<lambda>r. - pointThreshold r) (filter P rules))"
    using assms(1) by (rule sorted_filter)
  moreover have "- pointThreshold r \<in> set (map (\<lambda>r. - pointThreshold r) (filter P rules))"
    using assms(2) by (simp only: set_map) (rule imageI)
  ultimately have "- pointThreshold r \<le> last (map (\<lambda>r. - pointThreshold r) (filter P rules))"
    by (rule sorted_le_last)
  moreover have "filter P rules \<noteq> []" using assms(2) by (cases "filter P rules") simp_all
  ultimately show ?thesis by (simp add: last_map)
qed

lemma findUser_updateUsers:
  "(\<And>u. uid (f u) = uid u) \<Longrightarrow>
   findUser (updateUsers i f db) j = (if j = i then map_option f (findUser db i) else findUser db j)"
proof -
  assume h: "\<And>u. uid (f u) = uid u"
  have "find (\<lambda>u. uid u = j) (map (\<lambda>u. if uid u = i then f u else u) us)
        = (if j = i then map_option f (find (\<lambda>u. uid u = i) us) else find (\<lambda>u. uid u = j) us)" for us
    by (induction us) (auto simp: h)
  then show ?thesis by (simp add: findUser_def updateUsers_def)
qed

lemma moderateLoop_muted:
  "isMuted user \<Longrightarrow>
   snd (moderateLoop now i user t rules db)
     = (if \<exists>r \<in> set rules. pointThreshold r \<le> t \<and> ptype r = Ban then Some Ban else None)"
proof (induction rules)
  case Nil
  then show ?case by simp
next
  case (Cons r rs)
  then show ?case by (cases "ptype r") auto
qed

lemma punishLoop_firstApplied:
  "fst (snd (punishLoop exec now i t rules db)) = map_option ptype (firstApplied exec t rules)"
  by (induction rules) (auto simp: firstApplied_def split: prod.splits)

section \<open>C3: which rule the punishment decision applies\<close>

text \<open>
  Claim C3 as stated fails. The test route skips a mute rule with a met threshold when
  the user is already muted and walks on to lower rules, so a muted user reaching 10
  points under the rules mute at 10 and ban at 5 is banned by the lower rule. The
  Discord handler walks on after a failed platform call, so under mute at 5 and ban at 10
  a user reaching 10 points is muted when the ban call fails.
\<close>

theorem C3_counterexample:
  "map_option ptype (applicableRule 10 (activeRulesDesc dbMutedBanBelow)) = Some Mute
   \<and> fst (testModerate 1000 ''hi'' ''u1'' ''u1'' redVerdict dbMutedBanBelow)
       = ModerateResult ''red'' 5 10 (Some Ban)
   \<and> map_option ptype (applicableRule 10 (activeRulesDesc dbMute5Ban10)) = Some Ban
   \<and> fst (handleMessage banCallFails 1000 ''u1'' ''u1'' redVerdict dbMute5Ban10)
       = Notified 10 (Some Mute)"
  by (simp add: ex_defs op_defs dbMutedBanBelow_def dbMute5Ban10_def applicableRule_def
      testModerate_def handleMessage_def)

text \<open>
  Claim C3, amended. The applicable rule is the first rule, in descending threshold
  order, whose threshold is at most the total: it is active, and no active rule with a
  met threshold has a higher threshold, whatever the order of the rules in the table;
  no rule is applicable exactly when no active rule has a met threshold. The test route
  applies the punishment of the applicable rule to a user who is not already muted; for
  a user who is already muted it skips the mute rules and bans exactly when some active
  ban rule has a met threshold. The Discord handler applies the first rule in that order
  whose threshold is met and whose platform call succeeds, which is the applicable rule
  when its call succeeds. When the active rules are mute at 5 and ban at 10, in any
  insertion order, the test route bans a user reaching total 10, muted before or not.
\<close>

theorem C3_highest_met_threshold:
  shows "(\<not> isMuted user \<longrightarrow>
            snd (moderateLoop now i user t (activeRulesDesc db) db')
              = map_option ptype (applicableRule t (activeRulesDesc db)))
       \<and> (\<forall>r. applicableRule t (activeRulesDesc db) = Some r \<and> exec (ptype r) (duration r) \<longrightarrow>
            fst (snd (punishLoop exec now i t (activeRulesDesc db) db')) = Some (ptype r))
       \<and> (\<forall>r. applicableRule t (activeRulesDesc db) = Some r \<longrightarrow>
            r \<in> set (punishmentRules db) \<and> isActive r \<and> pointThreshold r \<le> t \<and>
            (\<forall>r' \<in> set (punishmentRules db). isActive r' \<and> pointThreshold r' \<le> t
                \<longrightarrow> pointThreshold r' \<le> pointThreshold r))
       \<and> (applicableRule t (activeRulesDesc db) = None \<longleftrightarrow>
            \<not> (\<exists>r \<in> set (punishmentRules db). isActive r \<and> pointThreshold r \<le> t))
       \<and> ((\<forall>r \<in> set (punishmentRules db). isActive r \<longrightarrow>
              (ptype r = Ban \<and> pointThreshold r = 10) \<or> (ptype r = Mute \<and> pointThreshold r = 5))
           \<and> (\<exists>r \<in> set (punishmentRules db). isActive r \<and> ptype r = Ban) \<longrightarrow>
            snd (moderateLoop now i user 10 (activeRulesDesc db) db') = Some Ban)
       \<and> (isMuted user \<longrightarrow>
            snd (moderateLoop now i user t (activeRulesDesc db) db')
              = (if ruleMet Ban t db then Some Ban else None))
       \<and> fst (snd (punishLoop exec now i t (activeRulesDesc db) db'))
            = map_option ptype (firstApplied exec t (activeRulesDesc db))"
proof (intro conjI allI impI)
  assume "\<not> isMuted user"
  then show "snd (moderateLoop now i user t (activeRulesDesc db) db')
              = map_option ptype (applicableRule t (activeRulesDesc db))"
    by (rule moderateLoop_applicable)
next
  fix r assume "applicableRule t (activeRulesDesc db) = Some r \<and> exec (ptype r) (duration r)"
  then show "fst (snd (punishLoop exec now i t (activeRulesDesc db) db')) = Some (ptype r)"
    using punishLoop_applicable by blast
next
  fix r assume a: "applicableRule t (activeRulesDesc db) = Some r"
  note m = applicableRule_sorted_max[OF sorted_activeRulesDesc a]
  from m show "r \<in> set (punishmentRules db)" by (simp add: set_activeRulesDesc)
  from m show "isActive r" by (simp add: set_activeRulesDesc)
  from m show "pointThreshold r \<le> t" by simp
  from m show "\<forall>r' \<in> set (punishmentRules db). isActive r' \<and> pointThreshold r' \<le> t
                \<longrightarrow> pointThreshold r' \<le> pointThreshold r"
    by (simp add: set_activeRulesDesc)
next
  show "applicableRule t (activeRulesDesc db) = None \<longleftrightarrow>
            \<not> (\<exists>r \<in> set (punishmentRules db). isActive r \<and> pointThreshold r \<le> t)"
    by (auto simp: applicableRule_None set_activeRulesDesc)
next
  assume h: "(\<forall>r \<in> set (punishmentRules db). isActive r \<longrightarrow>
              (ptype r = Ban \<and> pointThreshold r = 10) \<or> (ptype r = Mute \<and> pointThreshold r = 5))
           \<and> (\<exists>r \<in> set (punishmentRules db). isActive r \<and> ptype r = Ban)"
  show "snd (moderateLoop now i user 10 (activeRulesDesc db) db') = Some Ban"
  proof (rule moderateLoop_top_ban)
    show "\<forall>r \<in> set (activeRulesDesc db). (ptype r = Ban \<and> pointThreshold r = 10) \<or> (ptype r = Mute \<and> pointThreshold r = 5)"
      using h by (simp add: set_activeRulesDesc)
    show "\<exists>r \<in> set (activeRulesDesc db). ptype r = Ban"
      using h by (auto simp: set_activeRulesDesc)
    show "sorted (map (\<lambda>r. - pointThreshold r) (activeRulesDesc db))"
      by (rule sorted_activeRulesDesc)
  qed
next
  assume "isMuted user"
  then show "snd (moderateLoop now i user t (activeRulesDesc db) db')
              = (if ruleMet Ban t db then Some Ban else None)"
    by (simp add: moderateLoop_muted ruleMet_active)
next
  show "fst (snd (punishLoop exec now i t (activeRulesDesc db) db'))
            = map_option ptype (firstApplied exec t (activeRulesDesc db))"
    by (rule punishLoop_firstApplied)
qed

theorem C3_highest_met_threshold_witness:
  "\<not> isMuted (mkUser ''u1'' 5 False False None)
   \<and> applicableRule 10 (activeRulesDesc dbBan10Mute5) = Some (mkRule 1 Ban 10 None True)
   \<and> callSucceeds Ban None
   \<and> snd (moderateLoop 1000 ''u1'' (mkUser ''u1'' 5 False False None) 10
            (activeRulesDesc dbBan10Mute5) dbBan10Mute5) = Some Ban
   \<and> fst (snd (punishLoop callSucceeds 1000 ''u1'' 10
            (activeRulesDesc dbBan10Mute5) dbBan10Mute5)) = Some Ban
   \<and> snd (moderateLoop 1000 ''u1'' (mkUser ''u1'' 5 False True None) 10
            (activeRulesDesc dbMute5Ban10) dbMute5Ban10) = Some Ban
   \<and> isMuted (mkUser ''u1'' 5 False True None)
   \<and> ruleMet Ban 10 dbMute5Ban10
   \<and> firstApplied banCallFails 10 (activeRulesDesc dbMute5Ban10)
       = Some (mkRule 1 Mute 5 (Some 60) True)
   \<and> fst (snd (punishLoop banCallFails 1000 ''u1'' 10
            (activeRulesDesc dbMute5Ban10) dbMute5Ban10)) = Some Mute"
proof -
  have h1: "\<not> isMuted (mkUser ''u1'' 5 False False None)"
    by (simp add: mkUser_def)
  have h5: "isMuted (mkUser ''u1'' 5 False True None)"
    by (simp add: mkUser_def)
  have h6: "ruleMet Ban 10 dbMute5Ban10"
    by (simp add: ruleMet_def dbMute5Ban10_def mkDB_def mkRule_def)
  have h7: "firstApplied banCallFails 10 (activeRulesDesc dbMute5Ban10)
      = Some (mkRule 1 Mute 5 (Some 60) True)"
    by (simp add: firstApplied_def activeRulesDesc_def dbMute5Ban10_def mkDB_def mkRule_def
        banCallFails_def)
  have h2: "applicableRule 10 (activeRulesDesc dbBan10Mute5) = Some (mkRule 1 Ban 10 None True)"
    by (simp add: applicableRule_def activeRulesDesc_def dbBan10Mute5_def mkDB_def mkRule_def)
  have h3: "callSucceeds (ptype (mkRule 1 Ban 10 None True)) (duration (mkRule 1 Ban 10 None True))"
    by (simp add: callSucceeds_def)
  have h4: "(\<forall>r \<in> set (punishmentRules dbMute5Ban10). isActive r \<longrightarrow>
              (ptype r = Ban \<and> pointThreshold r = 10) \<or> (ptype r = Mute \<and> pointThreshold r = 5))
           \<and> (\<exists>r \<in> set (punishmentRules dbMute5Ban10). isActive r \<and> ptype r = Ban)"
    by (simp add: dbMute5Ban10_def mkDB_def mkRule_def)
  note T = C3_highest_met_threshold[where user = "mkUser ''u1'' 5 False False None"
      and now = 1000 and i = "''u1''" and t = 10 and db = dbBan10Mute5 and db' = dbBan10Mute5
      and exec = callSucceeds]
  note T' = C3_highest_met_threshold[where user = "mkUser ''u1'' 5 False True None"
      and now = 1000 and i = "''u1''" and t = 10 and db = dbMute5Ban10 and db' = dbMute5Ban10
      and exec = callSucceeds]
  from T h1 h2 have c1: "snd (moderateLoop 1000 ''u1'' (mkUser ''u1'' 5 False False None) 10
            (activeRulesDesc dbBan10Mute5) dbBan10Mute5) = Some Ban"
    by (simp add: mkRule_def)
  from T h2 h3 have c2: "fst (snd (punishLoop callSucceeds 1000 ''u1'' 10
            (activeRulesDesc dbBan10Mute5) dbBan10Mute5)) = Some Ban"
    by (simp add: mkRule_def)
  from T' h4 have c3: "snd (moderateLoop 1000 ''u1'' (mkUser ''u1'' 5 False True None) 10
            (activeRulesDesc dbMute5Ban10) dbMute5Ban10) = Some Ban"
    by blast
  note T'' = C3_highest_met_threshold[where user = "mkUser ''u1'' 5 False True None"
      and now = 1000 and i = "''u1''" and t = 10 and db = dbMute5Ban10 and db' = dbMute5Ban10
      and exec = banCallFails]
  from T'' h5 h6 have c4: "snd (moderateLoop 1000 ''u1'' (mkUser ''u1'' 5 False True None) 10
            (activeRulesDesc dbMute5Ban10) dbMute5Ban10) = Some Ban"
    by simp
  from T'' h7 have c5: "fst (snd (punishLoop banCallFails 1000 ''u1'' 10
            (activeRulesDesc dbMute5Ban10) dbMute5Ban10)) = Some Mute"
    by (simp add: mkRule_def)
  from h1 h2 h3 h5 h6 h7 c1 c2 c3 c4 c5 show ?thesis by (simp add: callSucceeds_def)
qed

section \<open>What recalculate writes\<close>

lemma foldl_points: "foldl (\<lambda>s w. s + points w) a ws = a + sum_list (map points ws)"
  by (induction ws arbitrary: a) simp_all

lemma pointsSum_sum_list: "pointsSum db i = sum_list (map points (activeWarnings db i))"
  by (simp add: pointsSum_def foldl_points)

lemma pointsSum_updateUsers: "pointsSum (updateUsers j f db) i = pointsSum db i"
  by (simp add: pointsSum_def activeWarnings_def updateUsers_def)

lemma recalculate_found:
  assumes "findUser db i = Some user" and "int32 (pointsSum db i)"
  shows "recalculate now i db =
     (UserJson (Some (user\<lparr>totalPoints := pointsSum db i,
         isBanned := ruleMet Ban (pointsSum db i) db,
         isMuted := (scannedMutes (pointsSum db i) (activeRulesDesc db) \<noteq> []),
         muteExpiresAt :=
           (if scannedMutes (pointsSum db i) (activeRulesDesc db) = [] then None
            else Some (muteExpiry now
              (duration (last (scannedMutes (pointsSum db i) (activeRulesDesc db))))))\<rparr>)),
      updateUsers i (\<lambda>u. u\<lparr>totalPoints := pointsSum db i,
         isBanned := ruleMet Ban (pointsSum db i) db,
         isMuted := (scannedMutes (pointsSum db i) (activeRulesDesc db) \<noteq> []),
         muteExpiresAt :=
           (if scannedMutes (pointsSum db i) (activeRulesDesc db) = [] then None
            else Some (muteExpiry now
              (duration (last (scannedMutes (pointsSum db i) (activeRulesDesc db))))))\<rparr>) db)"
proof -
  let ?t = "pointsSum db i"
  let ?s = "recalcLoop now ?t (activeRulesDesc db) (False, False, None)"
  have b: "fst ?s = ruleMet Ban ?t db"
    by (simp add: recalcLoop_ban ruleMet_active)
  have m: "snd ?s = (if scannedMutes ?t (activeRulesDesc db) = [] then (False, None)
      else (True, Some (muteExpiry now (duration (last (scannedMutes ?t (activeRulesDesc db)))))))"
    by (rule recalcLoop_mute)
  show ?thesis
    using assms by (simp add: recalculate_def Let_def b m findUser_updateUsers)
qed

section \<open>C4: recalculate\<close>

text \<open>
  A sum outside the 32-bit column: the store refuses the update, the route answers 500
  and the store stays as it was.
\<close>

lemma recalculate_refused:
  "findUser db i = Some user \<Longrightarrow> \<not> int32 (pointsSum db i) \<Longrightarrow>
   recalculate now i db = (Status 500 rangeError, db)"
  by (simp add: recalculate_def Let_def)

lemma recalculate_refused_example:
  "pointsSum dbSumTooLarge ''u1'' = 2147483648
   \<and> recalculate 1000 ''u1'' dbSumTooLarge = (Status 500 rangeError, dbSumTooLarge)"
  by (simp add: dbSumTooLarge_def ex_defs op_defs recalculate_def)

text \<open>
  Claim C4 as stated fails in its mute part. The scan stops at the first ban rule with a
  met threshold, so mute rules below it are never looked at: with two live warnings of 5
  points and the rules mute at 5 and ban at 10, the mute rule's threshold is met, and
  recalculate leaves the user banned and not muted.
\<close>

theorem C4_counterexample:
  "pointsSum dbTwoWarnings ''u1'' = 10
   \<and> ruleMet Mute 10 dbTwoWarnings
   \<and> map isBanned (users (snd (recalculate 1000 ''u1'' dbTwoWarnings))) = [True]
   \<and> map isMuted (users (snd (recalculate 1000 ''u1'' dbTwoWarnings))) = [False]"
  by (simp add: dbTwoWarnings_def ex_defs op_defs ruleMet_def recalculate_def)

text \<open>
  Claim C4, amended. For an existing user, when the store accepts the update (the sum
  fits the 32-bit column), recalculate sets \<open>totalPoints\<close> to the sum of the points of
  the user's warnings that are not ignored, sets \<open>isBanned\<close> exactly when some active ban
  rule's threshold is met by that sum, and sets \<open>isMuted\<close> exactly when the descending
  scan reaches an active mute rule with a met threshold before it stops at the first ban
  rule with a met threshold. So when no ban rule is met, \<open>isMuted\<close> holds exactly when
  some active mute rule is met, and when a met ban rule lies above every met mute rule
  the user is not muted. A muted user gets an expiry computed from now and the duration
  of a met active mute rule; a user who is not muted gets none.
\<close>

theorem C4_recalculate:
  assumes "findUser db i = Some user" and "int32 (pointsSum db i)"
  shows "\<exists>u. findUser (snd (recalculate now i db)) i = Some u
     \<and> fst (recalculate now i db) = UserJson (Some u)
     \<and> totalPoints u = sum_list (map points (activeWarnings db i))
     \<and> totalPoints u = pointsSum (snd (recalculate now i db)) i
     \<and> isBanned u = ruleMet Ban (totalPoints u) db
     \<and> isMuted u = (scannedMutes (totalPoints u) (activeRulesDesc db) \<noteq> [])
     \<and> (\<not> ruleMet Ban (totalPoints u) db \<longrightarrow> isMuted u = ruleMet Mute (totalPoints u) db)
     \<and> ((\<exists>b \<in> set (punishmentRules db). isActive b \<and> ptype b = Ban
            \<and> pointThreshold b \<le> totalPoints u
            \<and> (\<forall>m \<in> set (punishmentRules db).
                  isActive m \<and> ptype m = Mute \<and> pointThreshold m \<le> totalPoints u
                  \<longrightarrow> pointThreshold m < pointThreshold b))
          \<longrightarrow> \<not> isMuted u)
     \<and> (isMuted u \<longrightarrow>
          (\<exists>r \<in> set (punishmentRules db). isActive r \<and> ptype r = Mute
             \<and> pointThreshold r \<le> totalPoints u
             \<and> muteExpiresAt u = Some (now + durationOr60 (duration r) * 60 * 1000)))
     \<and> (\<not> isMuted u \<longrightarrow> muteExpiresAt u = None)"
proof -
  let ?t = "pointsSum db i"
  let ?ms = "scannedMutes ?t (activeRulesDesc db)"
  let ?u = "user\<lparr>totalPoints := ?t, isBanned := ruleMet Ban ?t db, isMuted := (?ms \<noteq> []),
      muteExpiresAt := (if ?ms = [] then None
                        else Some (muteExpiry now (duration (last ?ms))))\<rparr>"
  note r = recalculate_found[OF assms, of now]
  have uid: "uid user = i"
    using assms by (auto simp: findUser_def dest: find_Some_iff[THEN iffD1])
  have f: "findUser (snd (recalculate now i db)) i = Some ?u"
    using assms(1) by (simp add: r findUser_updateUsers)
  have resp: "fst (recalculate now i db) = UserJson (Some ?u)"
    by (simp add: r)
  have t1: "totalPoints ?u = sum_list (map points (activeWarnings db i))"
    by (simp add: pointsSum_sum_list)
  have t2: "totalPoints ?u = pointsSum (snd (recalculate now i db)) i"
    by (simp add: r pointsSum_updateUsers)
  have noban: "\<not> ruleMet Ban ?t db \<longrightarrow> (?ms \<noteq> []) = ruleMet Mute ?t db"
  proof
    assume nb: "\<not> ruleMet Ban ?t db"
    then have "\<not> (\<exists>r \<in> set (activeRulesDesc db). pointThreshold r \<le> ?t \<and> ptype r = Ban)"
      by (simp add: ruleMet_active)
    then have "?ms = filter (\<lambda>r. pointThreshold r \<le> ?t \<and> ptype r = Mute) (activeRulesDesc db)"
      by (rule scannedMutes_no_ban)
    then show "(?ms \<noteq> []) = ruleMet Mute ?t db"
      by (auto simp: ruleMet_active filter_empty_conv)
  qed
  have above: "(\<exists>b \<in> set (punishmentRules db). isActive b \<and> ptype b = Ban
            \<and> pointThreshold b \<le> ?t
            \<and> (\<forall>m \<in> set (punishmentRules db).
                  isActive m \<and> ptype m = Mute \<and> pointThreshold m \<le> ?t
                  \<longrightarrow> pointThreshold m < pointThreshold b))
          \<longrightarrow> ?ms = []"
  proof
    assume "\<exists>b \<in> set (punishmentRules db). isActive b \<and> ptype b = Ban
            \<and> pointThreshold b \<le> ?t
            \<and> (\<forall>m \<in> set (punishmentRules db).
                  isActive m \<and> ptype m = Mute \<and> pointThreshold m \<le> ?t
                  \<longrightarrow> pointThreshold m < pointThreshold b)"
    then obtain b where b: "b \<in> set (punishmentRules db)" "isActive b" "ptype b = Ban"
        "pointThreshold b \<le> ?t"
        "\<forall>m \<in> set (punishmentRules db).
                  isActive m \<and> ptype m = Mute \<and> pointThreshold m \<le> ?t
                  \<longrightarrow> pointThreshold m < pointThreshold b"
      by blast
    show "?ms = []"
    proof (rule scannedMutes_ban_above[OF sorted_activeRulesDesc, of b])
      show "b \<in> set (activeRulesDesc db)" using b by (simp add: set_activeRulesDesc)
      show "ptype b = Ban" by (rule b(3))
      show "pointThreshold b \<le> ?t" by (rule b(4))
      show "\<forall>r\<in>set (activeRulesDesc db).
          ptype r = Mute \<and> pointThreshold r \<le> ?t \<longrightarrow> pointThreshold r < pointThreshold b"
        using b(5) by (simp add: set_activeRulesDesc)
    qed
  qed
  have expiry: "?ms \<noteq> [] \<longrightarrow>
          (\<exists>r \<in> set (punishmentRules db). isActive r \<and> ptype r = Mute
             \<and> pointThreshold r \<le> ?t
             \<and> Some (muteExpiry now (duration (last ?ms)))
                 = Some (now + durationOr60 (duration r) * 60 * 1000))"
  proof
    assume ne: "?ms \<noteq> []"
    then have "last ?ms \<in> set ?ms" by simp
    with scannedMutes_subset[of ?t "activeRulesDesc db"]
    have "last ?ms \<in> set (punishmentRules db) \<and> isActive (last ?ms) \<and> ptype (last ?ms) = Mute
        \<and> pointThreshold (last ?ms) \<le> ?t"
      by (auto simp: set_activeRulesDesc)
    then show "\<exists>r \<in> set (punishmentRules db). isActive r \<and> ptype r = Mute
             \<and> pointThreshold r \<le> ?t
             \<and> Some (muteExpiry now (duration (last ?ms)))
                 = Some (now + durationOr60 (duration r) * 60 * 1000)"
      by (intro bexI[of _ "last ?ms"]) (simp_all add: muteExpiry_def)
  qed
  show ?thesis
  proof (intro exI[of _ ?u] conjI)
    show "findUser (snd (recalculate now i db)) i = Some ?u" by (rule f)
    show "fst (recalculate now i db) = UserJson (Some ?u)" by (rule resp)
    show "totalPoints ?u = sum_list (map points (activeWarnings db i))" by (rule t1)
    show "totalPoints ?u = pointsSum (snd (recalculate now i db)) i" by (rule t2)
    show "isBanned ?u = ruleMet Ban (totalPoints ?u) db" by simp
    show "isMuted ?u = (scannedMutes (totalPoints ?u) (activeRulesDesc db) \<noteq> [])" by simp
    show "\<not> ruleMet Ban (totalPoints ?u) db \<longrightarrow> isMuted ?u = ruleMet Mute (totalPoints ?u) db"
      using noban by simp
    show "(\<exists>b \<in> set (punishmentRules db). isActive b \<and> ptype b = Ban
            \<and> pointThreshold b \<le> totalPoints ?u
            \<and> (\<forall>m \<in> set (punishmentRules db).
                  isActive m \<and> ptype m = Mute \<and> pointThreshold m \<le> totalPoints ?u
                  \<longrightarrow> pointThreshold m < pointThreshold b))
          \<longrightarrow> \<not> isMuted ?u"
      using above by simp
    show "isMuted ?u \<longrightarrow>
          (\<exists>r \<in> set (punishmentRules db). isActive r \<and> ptype r = Mute
             \<and> pointThreshold r \<le> totalPoints ?u
             \<and> muteExpiresAt ?u = Some (now + durationOr60 (duration r) * 60 * 1000))"
      using expiry by simp
    show "\<not> isMuted ?u \<longrightarrow> muteExpiresAt ?u = None" by simp
  qed
qed

text \<open>
  The scenario of the claim: a muted user at 8 points, the mute rule deactivated and only
  ban at 10 active, is not muted after recalculation.
\<close>

theorem C4_recalculate_witness:
  "findUser dbMuteRuleOff ''u1'' = Some (mkUser ''u1'' 8 False True (Some 99))
   \<and> int32 (pointsSum dbMuteRuleOff ''u1'')
   \<and> (\<exists>u. findUser (snd (recalculate 1000 ''u1'' dbMuteRuleOff)) ''u1'' = Some u
          \<and> totalPoints u = 8 \<and> \<not> isBanned u \<and> \<not> isMuted u \<and> muteExpiresAt u = None)"
proof -
  have h: "findUser dbMuteRuleOff ''u1'' = Some (mkUser ''u1'' 8 False True (Some 99))"
    by (simp add: dbMuteRuleOff_def ex_defs findUser_def)
  have s: "sum_list (map points (activeWarnings dbMuteRuleOff ''u1'')) = 8"
    by (simp add: dbMuteRuleOff_def ex_defs activeWarnings_def)
  have nb: "\<not> ruleMet Ban 8 dbMuteRuleOff"
    by (simp add: dbMuteRuleOff_def ex_defs ruleMet_def)
  have nm: "\<not> ruleMet Mute 8 dbMuteRuleOff"
    by (simp add: dbMuteRuleOff_def ex_defs ruleMet_def)
  have hr: "int32 (pointsSum dbMuteRuleOff ''u1'')"
    by (simp add: dbMuteRuleOff_def ex_defs pointsSum_def activeWarnings_def int32_def)
  from C4_recalculate[OF h hr, of 1000] obtain u where
    u: "findUser (snd (recalculate 1000 ''u1'' dbMuteRuleOff)) ''u1'' = Some u"
       "totalPoints u = sum_list (map points (activeWarnings dbMuteRuleOff ''u1''))"
       "isBanned u = ruleMet Ban (totalPoints u) dbMuteRuleOff"
       "\<not> ruleMet Ban (totalPoints u) dbMuteRuleOff
          \<longrightarrow> isMuted u = ruleMet Mute (totalPoints u) dbMuteRuleOff"
       "\<not> isMuted u \<longrightarrow> muteExpiresAt u = None"
    by blast
  from u(2) s have t: "totalPoints u = 8" by simp
  from u(3) t nb have b: "\<not> isBanned u" by simp
  from u(4) t nb nm have m: "\<not> isMuted u" by simp
  from u(5) m have e: "muteExpiresAt u = None" by simp
  from h hr u(1) t b m e show ?thesis by blast
qed

section \<open>C10: which mute rule sets the expiry\<close>

text \<open>
  Claim C10. In a recalculate that the store accepts (the user exists and the recomputed
  total fits the 32-bit column), when no active ban rule's threshold is met and some
  active mute rule's is, the user is muted and the expiry is computed from the duration
  of the last mute rule with a met threshold in the descending scan, which has the
  lowest threshold among the active mute rules that are met.
\<close>

theorem C10_lowest_mute_rule_sets_expiry:
  assumes "findUser db i = Some user"
      and "\<not> ruleMet Ban (pointsSum db i) db"
      and "ruleMet Mute (pointsSum db i) db"
      and "int32 (pointsSum db i)"
  shows "\<exists>u r. findUser (snd (recalculate now i db)) i = Some u
     \<and> isMuted u
     \<and> r = last (filter (\<lambda>r. pointThreshold r \<le> pointsSum db i \<and> ptype r = Mute)
                  (activeRulesDesc db))
     \<and> r \<in> set (punishmentRules db) \<and> isActive r \<and> ptype r = Mute
     \<and> pointThreshold r \<le> pointsSum db i
     \<and> (\<forall>r' \<in> set (punishmentRules db).
           isActive r' \<and> ptype r' = Mute \<and> pointThreshold r' \<le> pointsSum db i
           \<longrightarrow> pointThreshold r \<le> pointThreshold r')
     \<and> muteExpiresAt u = Some (now + durationOr60 (duration r) * 60 * 1000)"
proof -
  let ?t = "pointsSum db i"
  let ?P = "\<lambda>r. pointThreshold r \<le> ?t \<and> ptype r = Mute"
  let ?ms = "scannedMutes ?t (activeRulesDesc db)"
  let ?r = "last (filter ?P (activeRulesDesc db))"
  let ?u = "user\<lparr>totalPoints := ?t, isBanned := ruleMet Ban ?t db, isMuted := (?ms \<noteq> []),
      muteExpiresAt := (if ?ms = [] then None
                        else Some (muteExpiry now (duration (last ?ms))))\<rparr>"
  have f: "findUser (snd (recalculate now i db)) i = Some ?u"
    using assms(1) by (simp add: recalculate_found[OF assms(1) assms(4)] findUser_updateUsers)
  from assms(2) have "\<not> (\<exists>r \<in> set (activeRulesDesc db). pointThreshold r \<le> ?t \<and> ptype r = Ban)"
    by (simp add: ruleMet_active)
  then have ms: "?ms = filter ?P (activeRulesDesc db)"
    by (rule scannedMutes_no_ban)
  from assms(3) have ne: "filter ?P (activeRulesDesc db) \<noteq> []"
    by (auto simp: ruleMet_active filter_empty_conv)
  then have "?r \<in> set (filter ?P (activeRulesDesc db))" by (rule last_in_set)
  then have r: "?r \<in> set (punishmentRules db)" "isActive ?r" "ptype ?r = Mute"
      "pointThreshold ?r \<le> ?t"
    by (simp_all add: set_activeRulesDesc)
  have least: "\<forall>r' \<in> set (punishmentRules db).
           isActive r' \<and> ptype r' = Mute \<and> pointThreshold r' \<le> ?t
           \<longrightarrow> pointThreshold ?r \<le> pointThreshold r'"
  proof (intro ballI impI)
    fix r' assume "r' \<in> set (punishmentRules db)"
      and "isActive r' \<and> ptype r' = Mute \<and> pointThreshold r' \<le> ?t"
    then have "r' \<in> set (filter ?P (activeRulesDesc db))"
      by (simp add: set_activeRulesDesc)
    with sorted_activeRulesDesc show "pointThreshold ?r \<le> pointThreshold r'"
      by (rule last_filter_sorted_min)
  qed
  show ?thesis
  proof (intro exI[of _ ?u] exI[of _ ?r] conjI)
    show "findUser (snd (recalculate now i db)) i = Some ?u" by (rule f)
    show "isMuted ?u" using ms ne by simp
    show "?r = last (filter ?P (activeRulesDesc db))" by (rule refl)
    show "?r \<in> set (punishmentRules db)" by (rule r(1))
    show "isActive ?r" by (rule r(2))
    show "ptype ?r = Mute" by (rule r(3))
    show "pointThreshold ?r \<le> ?t" by (rule r(4))
    show "\<forall>r' \<in> set (punishmentRules db).
           isActive r' \<and> ptype r' = Mute \<and> pointThreshold r' \<le> ?t
           \<longrightarrow> pointThreshold ?r \<le> pointThreshold r'" by (rule least)
    show "muteExpiresAt ?u = Some (now + durationOr60 (duration ?r) * 60 * 1000)"
      using ms ne by (simp add: muteExpiry_def)
  qed
qed

text \<open>Mute at 5 for 30 minutes and at 8 for 120, total 8: the expiry is 30 minutes from now.\<close>

theorem C10_lowest_mute_rule_sets_expiry_witness:
  "findUser dbTwoMutes ''u1'' = Some (mkUser ''u1'' 0 False False None)
   \<and> pointsSum dbTwoMutes ''u1'' = 8
   \<and> \<not> ruleMet Ban 8 dbTwoMutes \<and> ruleMet Mute 8 dbTwoMutes
   \<and> int32 8
   \<and> (\<exists>u. findUser (snd (recalculate 1000 ''u1'' dbTwoMutes)) ''u1'' = Some u
          \<and> isMuted u \<and> muteExpiresAt u = Some (1000 + 30 * 60 * 1000))"
proof -
  have h: "findUser dbTwoMutes ''u1'' = Some (mkUser ''u1'' 0 False False None)"
    by (simp add: dbTwoMutes_def ex_defs findUser_def)
  have s: "pointsSum dbTwoMutes ''u1'' = 8"
    by (simp add: dbTwoMutes_def ex_defs pointsSum_def activeWarnings_def)
  have nb: "\<not> ruleMet Ban 8 dbTwoMutes"
    by (simp add: dbTwoMutes_def ex_defs ruleMet_def)
  have m: "ruleMet Mute 8 dbTwoMutes"
    by (simp add: dbTwoMutes_def ex_defs ruleMet_def)
  have l: "last (filter (\<lambda>r. pointThreshold r \<le> 8 \<and> ptype r = Mute) (activeRulesDesc dbTwoMutes))
      = mkRule 1 Mute 5 (Some 30) True"
    by (simp add: dbTwoMutes_def ex_defs activeRulesDesc_def)
  have r: "int32 8"
    by (simp add: int32_def)
  from C10_lowest_mute_rule_sets_expiry[OF h, of 1000] s nb m r l
  have "\<exists>u. findUser (snd (recalculate 1000 ''u1'' dbTwoMutes)) ''u1'' = Some u
          \<and> isMuted u
          \<and> muteExpiresAt u
              = Some (1000 + durationOr60 (duration (mkRule 1 Mute 5 (Some 30) True)) * 60 * 1000)"
    by auto
  then have "\<exists>u. findUser (snd (recalculate 1000 ''u1'' dbTwoMutes)) ''u1'' = Some u
          \<and> isMuted u \<and> muteExpiresAt u = Some (1000 + 30 * 60 * 1000)"
    by (simp add: mkRule_def durationOr60_def)
  with h s nb m r show ?thesis by blast
qed

section \<open>What ignoreWarning writes\<close>

lemma removalLoop_flags:
  "removalLoop t rules (b, m) =
     (b \<and> map_option ptype (applicableRule t rules) \<noteq> Some Ban,
      m \<and> map_option ptype (applicableRule t rules) \<noteq> Some Mute)"
proof (induction rules)
  case Nil
  show ?case by (simp add: applicableRule_Nil)
next
  case (Cons r rs)
  then show ?case by (cases "ptype r") (simp_all add: applicableRule_Cons)
qed

lemma findUser_Some_uid: "findUser db i = Some u \<Longrightarrow> uid u = i"
  by (auto simp: findUser_def find_Some_iff)

lemma findWarning_Some_wid: "findWarning db i = Some w \<Longrightarrow> wid w = i"
  by (auto simp: findWarning_def find_Some_iff)

lemma findUser_updateWarnings [simp]: "findUser (updateWarnings P f db) j = findUser db j"
  by (simp add: findUser_def updateWarnings_def)

lemma activeRulesDesc_updateUsers [simp]: "activeRulesDesc (updateUsers i f db) = activeRulesDesc db"
  by (simp add: activeRulesDesc_def updateUsers_def)

lemma activeRulesDesc_updateWarnings [simp]:
  "activeRulesDesc (updateWarnings P f db) = activeRulesDesc db"
  by (simp add: activeRulesDesc_def updateWarnings_def)

lemma findWarning_updateUsers [simp]: "findWarning (updateUsers i f db) j = findWarning db j"
  by (simp add: findWarning_def updateUsers_def)

lemma findWarning_updateWarnings_wid:
  "(\<And>w. wid (f w) = wid w) \<Longrightarrow>
   findWarning (updateWarnings (\<lambda>w. wid w = i) f db) i = map_option f (findWarning db i)"
proof -
  assume h: "\<And>w. wid (f w) = wid w"
  have "find (\<lambda>w. wid w = i) (map (\<lambda>w. if wid w = i then f w else w) ws)
        = map_option f (find (\<lambda>w. wid w = i) ws)" for ws
    by (induction ws) (auto simp: h)
  then show ?thesis by (simp add: findWarning_def updateWarnings_def)
qed

lemma ignoreWarning_accepted:
  assumes "reviewer \<noteq> []" "why \<noteq> []"
      and w: "findWarning db i = Some w"
      and u: "findUser db (userId w) = Some user"
      and r: "isUserRef db reviewer"
      and "int32 i" and "int32 (totalPoints user - points w)"
      and "storable reviewer" and "storable why"
  shows "fst (ignoreWarning now i reviewer why db)
           = WarningJson (w\<lparr>messageIgnored := True, ignoredAt := Some now,
               ignoredBy := Some reviewer, ignoreReason := Some why\<rparr>)"
    and "findUser (snd (ignoreWarning now i reviewer why db)) (userId w)
           = Some (user\<lparr>totalPoints := totalPoints user - points w,
               isBanned := (isBanned user \<and>
                 map_option ptype (applicableRule (totalPoints user - points w)
                   (activeRulesDesc db)) = Some Ban),
               isMuted := (isMuted user \<and>
                 map_option ptype (applicableRule (totalPoints user - points w)
                   (activeRulesDesc db)) = Some Mute),
               muteExpiresAt :=
                 (if isMuted user \<and>
                     map_option ptype (applicableRule (totalPoints user - points w)
                       (activeRulesDesc db)) \<noteq> Some Mute
                  then None else muteExpiresAt user)\<rparr>)"
proof -
  have uid: "uid user = userId w" using u by (rule findUser_Some_uid)
  show "fst (ignoreWarning now i reviewer why db)
           = WarningJson (w\<lparr>messageIgnored := True, ignoredAt := Some now,
               ignoredBy := Some reviewer, ignoreReason := Some why\<rparr>)"
    using assms
    by (simp add: ignoreWarning_def Let_def findWarning_updateWarnings_wid)
  show "findUser (snd (ignoreWarning now i reviewer why db)) (userId w)
           = Some (user\<lparr>totalPoints := totalPoints user - points w,
               isBanned := (isBanned user \<and>
                 map_option ptype (applicableRule (totalPoints user - points w)
                   (activeRulesDesc db)) = Some Ban),
               isMuted := (isMuted user \<and>
                 map_option ptype (applicableRule (totalPoints user - points w)
                   (activeRulesDesc db)) = Some Mute),
               muteExpiresAt :=
                 (if isMuted user \<and>
                     map_option ptype (applicableRule (totalPoints user - points w)
                       (activeRulesDesc db)) \<noteq> Some Mute
                  then None else muteExpiresAt user)\<rparr>)"
    using assms uid
    by (auto simp: ignoreWarning_def Let_def findWarning_updateWarnings_wid
        findUser_updateUsers removalLoop_flags split: option.splits)
qed



section \<open>C5: punishment flags after ignoreWarning\<close>

text \<open>
  What the store refuses in ignoreWarning: a warning id outside 32 bits, before any
  write; a new total outside 32 bits, after the warning's row was rewritten.
\<close>

lemma ignoreWarning_refused_id:
  "reviewer \<noteq> [] \<Longrightarrow> why \<noteq> [] \<Longrightarrow> \<not> int32 i \<Longrightarrow>
   ignoreWarning now i reviewer why db = (Status 500 rangeError, db)"
  by (simp add: ignoreWarning_def)

lemma ignoreWarning_refused_total:
  assumes "reviewer \<noteq> []" "why \<noteq> []"
      and "findWarning db i = Some w"
      and "findUser db (userId w) = Some user"
      and "isUserRef db reviewer"
      and "int32 i" and "\<not> int32 (totalPoints user - points w)"
      and "storable reviewer" and "storable why"
  shows "ignoreWarning now i reviewer why db =
     (Status 500 rangeError,
      updateWarnings (\<lambda>w. wid w = i)
        (\<lambda>w. w\<lparr>messageIgnored := True, ignoredAt := Some now,
               ignoredBy := Some reviewer, ignoreReason := Some why\<rparr>) db)"
  using assms by (simp add: ignoreWarning_def Let_def)




section \<open>C9: resetWarnings\<close>

lemma resetWarnings_Success:
  assumes "fst (resetWarnings now i db) = Success"
  shows "\<exists>user. findUser db i = Some user \<and>
     snd (resetWarnings now i db) =
       updateUsers i (\<lambda>u. u\<lparr>totalPoints := 0, isBanned := False, isMuted := False,
                             muteExpiresAt := None\<rparr>)
         (updateWarnings (\<lambda>w. userId w = i)
            (\<lambda>w. w\<lparr>messageIgnored := True, ignoredAt := Some now,
                   ignoredBy := Some ''system'',
                   ignoreReason := Some ''Reset for testing purposes''\<rparr>) db)"
  using assms by (auto simp: resetWarnings_def Let_def split: option.splits if_splits)

text \<open>
  Claim C9 as stated fails in its last part. The update of the reset has no condition on
  \<open>messageIgnored\<close>: it rewrites the ignore sub-record of every warning of the user, so
  a warning ignored earlier by a moderator is attributed to the system afterwards.
\<close>

theorem C9_counterexample:
  "map ignoredBy (warnings dbReviewed) = [Some ''mod1'', None, None]
   \<and> fst (resetWarnings 1000 ''u1'' dbReviewed) = Success
   \<and> map ignoredBy (warnings (snd (resetWarnings 1000 ''u1'' dbReviewed)))
       = [Some ''system'', Some ''system'', None]
   \<and> map ignoreReason (warnings (snd (resetWarnings 1000 ''u1'' dbReviewed)))
       = [Some ''Reset for testing purposes'', Some ''Reset for testing purposes'', None]
   \<and> map ignoredAt (warnings (snd (resetWarnings 1000 ''u1'' dbReviewed)))
       = [Some 1000, Some 1000, None]"
  by (simp add: dbReviewed_def ex_defs op_defs resetWarnings_def)

text \<open>
  Claim C9, amended. A successful resetWarnings marks every warning of the user, ignored
  before or not, as ignored by \<open>system\<close> at the time of the reset with the reason
  \<open>Reset for testing purposes\<close>; it deletes no warning row and changes no column
  outside the ignore sub-record, leaves the warnings of other users as they are, sets the
  user's \<open>totalPoints\<close> to 0, which is the sum over the user's warnings that are not
  ignored, clears \<open>isBanned\<close>, \<open>isMuted\<close> and \<open>muteExpiresAt\<close>, and leaves the other
  users as they are.
\<close>

theorem C9_reset:
  assumes "fst (resetWarnings now i db) = Success"
  shows "map auditFields (warnings (snd (resetWarnings now i db))) = map auditFields (warnings db)
     \<and> (\<forall>w \<in> set (warnings (snd (resetWarnings now i db))). userId w = i \<longrightarrow>
           messageIgnored w \<and> ignoredBy w = Some ''system'' \<and> ignoredAt w = Some now
           \<and> ignoreReason w = Some ''Reset for testing purposes'')
     \<and> filter (\<lambda>w. userId w \<noteq> i) (warnings (snd (resetWarnings now i db)))
          = filter (\<lambda>w. userId w \<noteq> i) (warnings db)
     \<and> (\<exists>u. findUser (snd (resetWarnings now i db)) i = Some u \<and> totalPoints u = 0
            \<and> \<not> isBanned u \<and> \<not> isMuted u \<and> muteExpiresAt u = None)
     \<and> pointsSum (snd (resetWarnings now i db)) i = 0
     \<and> (\<forall>j. j \<noteq> i \<longrightarrow> findUser (snd (resetWarnings now i db)) j = findUser db j)"
proof -
  let ?f = "\<lambda>w. w\<lparr>messageIgnored := True, ignoredAt := Some now, ignoredBy := Some ''system'',
                   ignoreReason := Some ''Reset for testing purposes''\<rparr>"
  let ?g = "\<lambda>u. u\<lparr>totalPoints := 0, isBanned := False, isMuted := False, muteExpiresAt := None\<rparr>"
  from resetWarnings_Success[OF assms] obtain user where
    u: "findUser db i = Some user" and
    d: "snd (resetWarnings now i db) = updateUsers i ?g (updateWarnings (\<lambda>w. userId w = i) ?f db)"
    by blast
  have ws: "warnings (snd (resetWarnings now i db))
      = map (\<lambda>w. if userId w = i then ?f w else w) (warnings db)"
    by (simp add: d updateUsers_def updateWarnings_def)
  have a: "map auditFields (warnings (snd (resetWarnings now i db))) = map auditFields (warnings db)"
    by (simp add: ws auditFields_def)
  have b: "\<forall>w \<in> set (warnings (snd (resetWarnings now i db))). userId w = i \<longrightarrow>
           messageIgnored w \<and> ignoredBy w = Some ''system'' \<and> ignoredAt w = Some now
           \<and> ignoreReason w = Some ''Reset for testing purposes''"
  proof -
    have "list_all (\<lambda>w. userId w = i \<longrightarrow>
           messageIgnored w \<and> ignoredBy w = Some ''system'' \<and> ignoredAt w = Some now
           \<and> ignoreReason w = Some ''Reset for testing purposes'')
          (map (\<lambda>w. if userId w = i then ?f w else w) xs)" for xs
      by (induction xs) simp_all
    then show ?thesis unfolding ws list_all_iff .
  qed
  have c: "filter (\<lambda>w. userId w \<noteq> i) (warnings (snd (resetWarnings now i db)))
          = filter (\<lambda>w. userId w \<noteq> i) (warnings db)"
  proof -
    have "filter (\<lambda>w. userId w \<noteq> i) (map (\<lambda>w. if userId w = i then ?f w else w) xs)
          = filter (\<lambda>w. userId w \<noteq> i) xs" for xs
      by (induction xs) simp_all
    then show ?thesis by (simp only: ws)
  qed
  have e: "findUser (snd (resetWarnings now i db)) i = Some (?g user)"
    using u by (simp add: d findUser_updateUsers)
  have s: "pointsSum (snd (resetWarnings now i db)) i = 0"
  proof -
    have z: "filter (\<lambda>w. userId w = i \<and> \<not> messageIgnored w)
            (map (\<lambda>w. if userId w = i then ?f w else w) xs) = []" for xs
      by (induction xs) simp_all
    show ?thesis unfolding pointsSum_def activeWarnings_def ws z by simp
  qed
  have o: "\<forall>j. j \<noteq> i \<longrightarrow> findUser (snd (resetWarnings now i db)) j = findUser db j"
    by (simp add: d findUser_updateUsers)
  show ?thesis
  proof (intro conjI)
    show "map auditFields (warnings (snd (resetWarnings now i db))) = map auditFields (warnings db)"
      by (rule a)
    show "\<forall>w \<in> set (warnings (snd (resetWarnings now i db))). userId w = i \<longrightarrow>
           messageIgnored w \<and> ignoredBy w = Some ''system'' \<and> ignoredAt w = Some now
           \<and> ignoreReason w = Some ''Reset for testing purposes''"
      by (rule b)
    show "filter (\<lambda>w. userId w \<noteq> i) (warnings (snd (resetWarnings now i db)))
          = filter (\<lambda>w. userId w \<noteq> i) (warnings db)"
      by (rule c)
    show "\<exists>u. findUser (snd (resetWarnings now i db)) i = Some u \<and> totalPoints u = 0
            \<and> \<not> isBanned u \<and> \<not> isMuted u \<and> muteExpiresAt u = None"
      by (intro exI[of _ "?g user"]) (simp add: e)
    show "pointsSum (snd (resetWarnings now i db)) i = 0" by (rule s)
    show "\<forall>j. j \<noteq> i \<longrightarrow> findUser (snd (resetWarnings now i db)) j = findUser db j"
      by (rule o)
  qed
qed

theorem C9_reset_witness:
  "fst (resetWarnings 1000 ''u1'' dbReviewed) = Success
   \<and> map wid (warnings (snd (resetWarnings 1000 ''u1'' dbReviewed))) = [1, 2, 3]
   \<and> map messageIgnored (warnings (snd (resetWarnings 1000 ''u1'' dbReviewed)))
       = [True, True, False]
   \<and> pointsSum (snd (resetWarnings 1000 ''u1'' dbReviewed)) ''u1'' = 0
   \<and> (\<exists>u. findUser (snd (resetWarnings 1000 ''u1'' dbReviewed)) ''u1'' = Some u
          \<and> totalPoints u = 0 \<and> \<not> isBanned u \<and> \<not> isMuted u \<and> muteExpiresAt u = None)"
proof -
  have h: "fst (resetWarnings 1000 ''u1'' dbReviewed) = Success"
    by (simp add: dbReviewed_def ex_defs op_defs resetWarnings_def)
  have w: "map wid (warnings (snd (resetWarnings 1000 ''u1'' dbReviewed))) = [1, 2, 3]"
       "map messageIgnored (warnings (snd (resetWarnings 1000 ''u1'' dbReviewed)))
          = [True, True, False]"
    by (simp_all add: dbReviewed_def ex_defs op_defs resetWarnings_def)
  from C9_reset[OF h] have
    "pointsSum (snd (resetWarnings 1000 ''u1'' dbReviewed)) ''u1'' = 0
     \<and> (\<exists>u. findUser (snd (resetWarnings 1000 ''u1'' dbReviewed)) ''u1'' = Some u
          \<and> totalPoints u = 0 \<and> \<not> isBanned u \<and> \<not> isMuted u \<and> muteExpiresAt u = None)"
    by blast
  with h w show ?thesis by blast
qed

section \<open>C6: a failed platform call and the ledger\<close>

lemma punishLoop_frame:
  "users (fst (punishLoop exec now i t rules db)) = users db
   \<and> warnings (fst (punishLoop exec now i t rules db)) = warnings db"
  by (induction rules) (auto simp: insertPunishment_def split: prod.splits)

lemma punishLoop_failure_logged:
  "applicableRule t rules = Some r \<Longrightarrow> \<not> exec (ptype r) (duration r) \<Longrightarrow>
   ''Failed to apply punishment'' \<in> set (snd (snd (punishLoop exec now i t rules db)))"
  by (induction rules) (auto simp: applicableRule_Nil applicableRule_Cons split: prod.splits if_splits)

lemma punishLoop_all_fail:
  "\<forall>ty d. \<not> exec ty d \<Longrightarrow>
   fst (punishLoop exec now i t rules db) = db \<and> fst (snd (punishLoop exec now i t rules db)) = None"
  by (induction rules) (auto split: prod.splits)

lemma findUser_insertUser:
  "findUser db a = None \<Longrightarrow>
   findUser (insertUser a n db) a =
     Some \<lparr>uid = a, username = n, totalPoints = 0, isBanned = False, isMuted = False,
           muteExpiresAt = None\<rparr>"
proof -
  have "find P xs = None \<Longrightarrow> P x \<Longrightarrow> find P (xs @ [x]) = Some x" for P and xs :: "User list" and x
    by (induction xs) (simp_all split: if_splits)
  then show "findUser db a = None \<Longrightarrow> ?thesis"
    by (simp add: findUser_def insertUser_def)
qed

lemma activeRulesDesc_insertUser [simp]: "activeRulesDesc (insertUser a n db) = activeRulesDesc db"
  by (simp add: activeRulesDesc_def insertUser_def)

lemma handleMessage_level_found:
  assumes "warningLevel analysis \<noteq> ''none''"
      and "findLevel db (warningLevel analysis) = Some level"
      and "int32 (totalAfter db a level)"
      and "storable a" and "storable n"
  shows "handleMessage exec now a n analysis db =
     (case punishLoop exec now a (totalAfter db a level) (activeRulesDesc db)
             (ledgerWritten a n (totalAfter db a level) db) of
        (db3, applied, lg) \<Rightarrow> (Notified (totalAfter db a level) applied, db3, lg))"
proof (cases "findUser db a")
  case None
  with assms show ?thesis
    by (simp add: handleMessage_def Let_def findUser_insertUser totalAfter_def ledgerWritten_def)
next
  case (Some u)
  with assms show ?thesis
    by (simp add: handleMessage_def Let_def totalAfter_def ledgerWritten_def)
qed

lemma findUser_ledgerWritten:
  "\<exists>u. findUser (ledgerWritten a n t db) a = Some u \<and> totalPoints u = t"
proof (cases "findUser db a")
  case None
  then show ?thesis
    by (simp add: ledgerWritten_def findUser_updateUsers findUser_insertUser)
next
  case (Some u)
  then show ?thesis
    by (simp add: ledgerWritten_def findUser_updateUsers)
qed

lemma warnings_ledgerWritten: "warnings (ledgerWritten a n t db) = warnings db"
  by (simp add: ledgerWritten_def updateUsers_def insertUser_def split: option.splits)

lemma punishments_ledgerWritten: "punishments (ledgerWritten a n t db) = punishments db"
  by (simp add: ledgerWritten_def updateUsers_def insertUser_def split: option.splits)

text \<open>
  What holds of the Discord handler, once the level is found and the store accepts the
  point update (the author's id and name hold no NUL character, the new total is in the
  range of the column): the users table after the handler is the table as the point
  update left it, whatever the platform calls answer; the handler touches no warning
  row; a failed call for the applicable rule is logged with \<open>console.error\<close>; when
  every call fails, no punishment row is added and the handler still reports the new
  total.
\<close>

lemma handleMessage_ledger_kept:
  assumes "warningLevel analysis \<noteq> ''none''"
      and "findLevel db (warningLevel analysis) = Some level"
      and "int32 (totalAfter db a level)"
      and "storable a" and "storable n"
  shows "users (fst (snd (handleMessage exec now a n analysis db)))
           = users (ledgerWritten a n (totalAfter db a level) db)
     \<and> warnings (fst (snd (handleMessage exec now a n analysis db))) = warnings db
     \<and> (\<exists>u. findUser (fst (snd (handleMessage exec now a n analysis db))) a = Some u
            \<and> totalPoints u = totalAfter db a level)
     \<and> (\<exists>applied. fst (handleMessage exec now a n analysis db)
            = Notified (totalAfter db a level) applied)
     \<and> (\<forall>r. applicableRule (totalAfter db a level) (activeRulesDesc db) = Some r
              \<and> \<not> exec (ptype r) (duration r)
            \<longrightarrow> ''Failed to apply punishment''
                  \<in> set (snd (snd (handleMessage exec now a n analysis db))))
     \<and> ((\<forall>ty d. \<not> exec ty d) \<longrightarrow>
            punishments (fst (snd (handleMessage exec now a n analysis db))) = punishments db
            \<and> fst (handleMessage exec now a n analysis db)
                = Notified (totalAfter db a level) None)"
proof -
  let ?t = "totalAfter db a level"
  let ?l = "ledgerWritten a n ?t db"
  let ?p = "punishLoop exec now a ?t (activeRulesDesc db) ?l"
  have h: "handleMessage exec now a n analysis db
      = (Notified ?t (fst (snd ?p)), fst ?p, snd (snd ?p))"
    by (simp add: handleMessage_level_found[OF assms] split: prod.splits)
  have us: "users (fst ?p) = users ?l" and ws: "warnings (fst ?p) = warnings ?l"
    using punishLoop_frame[of exec now a ?t "activeRulesDesc db" ?l] by simp_all
  have fu: "findUser (fst ?p) a = findUser ?l a"
    by (simp add: findUser_def us)
  show ?thesis
  proof (intro conjI allI impI)
    show "users (fst (snd (handleMessage exec now a n analysis db))) = users ?l"
      by (simp add: h us)
    show "warnings (fst (snd (handleMessage exec now a n analysis db))) = warnings db"
      by (simp add: h ws warnings_ledgerWritten)
    show "\<exists>u. findUser (fst (snd (handleMessage exec now a n analysis db))) a = Some u
            \<and> totalPoints u = ?t"
      using findUser_ledgerWritten[of a n ?t db] by (simp add: h fu)
    show "\<exists>applied. fst (handleMessage exec now a n analysis db) = Notified ?t applied"
      by (simp add: h)
  next
    fix r
    assume "applicableRule ?t (activeRulesDesc db) = Some r \<and> \<not> exec (ptype r) (duration r)"
    then show "''Failed to apply punishment''
                  \<in> set (snd (snd (handleMessage exec now a n analysis db)))"
      using punishLoop_failure_logged[of ?t "activeRulesDesc db" r exec now a ?l]
      by (simp add: h)
  next
    assume f: "\<forall>ty d. \<not> exec ty d"
    show "punishments (fst (snd (handleMessage exec now a n analysis db))) = punishments db"
      using punishLoop_all_fail[OF f, of now a ?t "activeRulesDesc db" ?l]
      by (simp add: h punishments_ledgerWritten)
    show "fst (handleMessage exec now a n analysis db) = Notified ?t None"
      using punishLoop_all_fail[OF f, of now a ?t "activeRulesDesc db" ?l]
      by (simp add: h)
  qed
qed

text \<open>
  Claim C6 fails on the code in what it says of the warning record. The only path with
  a platform call is the Discord handler. When the calls fail there, the point update
  stays (5 becomes 10) and each failure is logged, but the handler has inserted no
  warning row for the message, so there is no warning record to persist: the warnings
  table is the one from before the message, where the test route adds the row.
\<close>

theorem C6_no_warning_record:
  "map totalPoints (users dbMute5Ban10) = [5]
   \<and> map wid (warnings dbMute5Ban10) = [1]
   \<and> fst (handleMessage callFails 1000 ''u1'' ''u1'' redVerdict dbMute5Ban10) = Notified 10 None
   \<and> snd (snd (handleMessage callFails 1000 ''u1'' ''u1'' redVerdict dbMute5Ban10))
       = [''Failed to apply punishment'', ''Failed to apply punishment'']
   \<and> map totalPoints
        (users (fst (snd (handleMessage callFails 1000 ''u1'' ''u1'' redVerdict dbMute5Ban10))))
       = [10]
   \<and> warnings (fst (snd (handleMessage callFails 1000 ''u1'' ''u1'' redVerdict dbMute5Ban10)))
       = warnings dbMute5Ban10
   \<and> map wid (warnings (fst (snd
        (testModerate 1000 ''hi'' ''u1'' ''u1'' redVerdict dbMute5Ban10)))) = [1, 2]
   \<and> map totalPoints (users (fst (snd
        (testModerate 1000 ''hi'' ''u1'' ''u1'' redVerdict dbMute5Ban10)))) = [10]"
  by (simp add: dbMute5Ban10_def ex_defs op_defs handleMessage_def testModerate_def)

section \<open>C8: a level name that is not configured\<close>

lemma findLevel_no_match:
  "\<forall>l \<in> set (warningLevels db). toLowerCase (name l) \<noteq> toLowerCase n \<Longrightarrow> findLevel db n = None"
  by (auto simp: findLevel_def find_None_iff)

text \<open>
  Claim C8. When the level name of the verdict (other than \<open>none\<close>, the verdict of no
  violation) matches no configured level even without regard to case, both handlers
  leave the database as it is, insert no warning, apply no punishment, and log
  \<open>Warning level not found\<close>; the Discord handler returns, the test route answers 500.
\<close>

theorem C8_unknown_level_noop:
  assumes "warningLevel analysis \<noteq> ''none''"
      and "\<forall>l \<in> set (warningLevels db).
             toLowerCase (name l) \<noteq> toLowerCase (warningLevel analysis)"
  shows "handleMessage exec now a n analysis db = (Skipped, db, [''Warning level not found''])
     \<and> (content \<noteq> [] \<and> i \<noteq> [] \<and> uname \<noteq> [] \<longrightarrow>
          testModerate now content i uname analysis db
            = (Status 500 ''Warning level not found'', db, [''Warning level not found'']))"
  using assms(1) findLevel_no_match[OF assms(2)]
  by (simp add: handleMessage_def testModerate_def)

theorem C8_unknown_level_noop_witness:
  "warningLevel purpleVerdict \<noteq> ''none''
   \<and> map (\<lambda>l. toLowerCase (name l)) (warningLevels dbMute5Ban10) = [''yellow'', ''orange'', ''red'']
   \<and> toLowerCase (warningLevel purpleVerdict) = ''purple''
   \<and> handleMessage callSucceeds 1000 ''u1'' ''u1'' purpleVerdict dbMute5Ban10
       = (Skipped, dbMute5Ban10, [''Warning level not found''])
   \<and> testModerate 1000 ''hi'' ''u1'' ''u1'' purpleVerdict dbMute5Ban10
       = (Status 500 ''Warning level not found'', dbMute5Ban10, [''Warning level not found''])"
proof -
  have h1: "warningLevel purpleVerdict \<noteq> ''none''"
    by (simp add: purpleVerdict_def)
  have n: "map (\<lambda>l. toLowerCase (name l)) (warningLevels dbMute5Ban10)
      = [''yellow'', ''orange'', ''red'']"
    by code_simp
  have p: "toLowerCase (warningLevel purpleVerdict) = ''purple''"
    by code_simp
  have "\<forall>x \<in> set (map (\<lambda>l. toLowerCase (name l)) (warningLevels dbMute5Ban10)).
      x \<noteq> toLowerCase (warningLevel purpleVerdict)"
    unfolding n p by simp
  then have h2: "\<forall>l \<in> set (warningLevels dbMute5Ban10).
      toLowerCase (name l) \<noteq> toLowerCase (warningLevel purpleVerdict)"
    by simp
  have h3: "''hi'' \<noteq> [] \<and> ''u1'' \<noteq> [] \<and> ''u1'' \<noteq> []" by simp
  from C8_unknown_level_noop[OF h1 h2, of callSucceeds 1000 "''u1''" "''u1''" "''hi''" "''u1''" "''u1''"] h3
  have "handleMessage callSucceeds 1000 ''u1'' ''u1'' purpleVerdict dbMute5Ban10
       = (Skipped, dbMute5Ban10, [''Warning level not found''])
     \<and> testModerate 1000 ''hi'' ''u1'' ''u1'' purpleVerdict dbMute5Ban10
       = (Status 500 ''Warning level not found'', dbMute5Ban10, [''Warning level not found''])"
    by blast
  with h1 n p show ?thesis by blast
qed

section \<open>C7: the ban branch of recordWarning\<close>

lemma moderateLoop_ban:
  "applicableRule t rules = Some r \<Longrightarrow> ptype r = Ban \<Longrightarrow>
   moderateLoop now i user t rules db =
     (insertPunishment (banRow i ''Exceeded maximum warning points'')
        (updateUsers i (\<lambda>u. u\<lparr>isBanned := True\<rparr>) db), Some Ban)"
  by (induction rules) (auto simp: applicableRule_Nil applicableRule_Cons banRow_def split: if_splits)

lemma punishLoop_ban:
  "applicableRule t rules = Some r \<Longrightarrow> ptype r = Ban \<Longrightarrow> exec Ban (duration r) \<Longrightarrow>
   punishLoop exec now i t rules db =
     (insertPunishment (banRow i ''Accumulated warning points'') db, Some Ban, [])"
  by (induction rules) (auto simp: applicableRule_Nil applicableRule_Cons banRow_def split: if_splits)

lemma activeRulesDesc_insertWarning [simp]:
  "activeRulesDesc (insertWarning now i level r c d db) = activeRulesDesc db"
  by (simp add: activeRulesDesc_def insertWarning_def)

lemma findUser_insertWarning [simp]:
  "findUser (insertWarning now i level r c d db) j = findUser db j"
  by (simp add: findUser_def insertWarning_def)

lemma testModerate_level_found:
  assumes "content \<noteq> []" "i \<noteq> []" "n \<noteq> []"
      and "warningLevel verdict \<noteq> ''none''"
      and "findLevel db (warningLevel verdict) = Some level"
      and "int32 (totalAfter db i level)"
      and "storable i" and "storable n"
      and "storable content" and "storable (aRuleTriggered verdict)"
  shows "testModerate now content i n verdict db =
     (ModerateResult (warningLevel verdict) (levelPoints level) (totalAfter db i level)
        (snd (moderateLoop now i (userOrNew db i n) (totalAfter db i level) (activeRulesDesc db)
                (warningRecorded now i n level verdict content db))),
      fst (moderateLoop now i (userOrNew db i n) (totalAfter db i level) (activeRulesDesc db)
             (warningRecorded now i n level verdict content db)),
      [])"
proof (cases "findUser db i")
  case None
  with assms show ?thesis
    by (simp add: testModerate_def Let_def findUser_insertUser totalAfter_def userOrNew_def
        warningRecorded_def)
next
  case (Some u)
  with assms show ?thesis
    by (simp add: testModerate_def Let_def totalAfter_def userOrNew_def warningRecorded_def)
qed

lemma findUser_warningRecorded:
  "\<exists>u. findUser (warningRecorded now i n level verdict content db) i = Some u
       \<and> totalPoints u = totalAfter db i level"
proof (cases "findUser db i")
  case None
  then show ?thesis
    by (simp add: warningRecorded_def findUser_updateUsers findUser_insertUser)
next
  case (Some u)
  then show ?thesis
    by (simp add: warningRecorded_def findUser_updateUsers)
qed

lemma punishments_warningRecorded:
  "punishments (warningRecorded now i n level verdict content db) = punishments db"
  by (simp add: warningRecorded_def updateUsers_def insertWarning_def insertUser_def
      split: option.splits)

text \<open>
  A ledger write the store refuses: with the user at the largest total of the column the
  test route inserts the warning, answers 500 at the point update and never reaches the
  rules, and the Discord handler logs the error and stops; a message with a NUL
  character is refused at the insert of the warning.
\<close>

lemma recordWarning_refused_example:
  "map_option ptype (applicableRule (2147483647 + 5) (activeRulesDesc dbAtMaxTotal)) = Some Ban
   \<and> fst (testModerate 1000 ''hi'' ''u1'' ''u1'' redVerdict dbAtMaxTotal) = Status 500 rangeError
   \<and> map wid (warnings (fst (snd
        (testModerate 1000 ''hi'' ''u1'' ''u1'' redVerdict dbAtMaxTotal)))) = [1, 2]
   \<and> users (fst (snd (testModerate 1000 ''hi'' ''u1'' ''u1'' redVerdict dbAtMaxTotal)))
       = users dbAtMaxTotal
   \<and> punishments (fst (snd (testModerate 1000 ''hi'' ''u1'' ''u1'' redVerdict dbAtMaxTotal))) = []
   \<and> handleMessage callSucceeds 1000 ''u1'' ''u1'' redVerdict dbAtMaxTotal
       = (Skipped, dbAtMaxTotal, [''Error in punishment processing''])
   \<and> testModerate 1000 [CHR ''h'', CHR 0x00] ''u1'' ''u1'' redVerdict dbMute5Ban10
       = (Status 500 textError, dbMute5Ban10, [''Error in test moderation''])"
  by (simp add: dbMute5Ban10_def dbAtMaxTotal_def ex_defs op_defs applicableRule_def
      handleMessage_def testModerate_def)

text \<open>
  Claim C7 as stated fails in the Discord handler. There the applicable rule is a ban at
  total 10, and when the ban call fails the handler adds no ban row and goes on to the
  mute rule; when the call succeeds it adds the row and stops, and the user's
  \<open>isBanned\<close> column stays false, where the test route sets it.
\<close>

theorem C7_counterexample:
  "map_option ptype (applicableRule 10 (activeRulesDesc dbMute5Ban10)) = Some Ban
   \<and> fst (handleMessage banCallFails 1000 ''u1'' ''u1'' redVerdict dbMute5Ban10)
       = Notified 10 (Some Mute)
   \<and> map pType (punishments (fst (snd
        (handleMessage banCallFails 1000 ''u1'' ''u1'' redVerdict dbMute5Ban10)))) = [Mute]
   \<and> fst (handleMessage callSucceeds 1000 ''u1'' ''u1'' redVerdict dbMute5Ban10)
       = Notified 10 (Some Ban)
   \<and> map isBanned (users (fst (snd
        (handleMessage callSucceeds 1000 ''u1'' ''u1'' redVerdict dbMute5Ban10)))) = [False]
   \<and> map isBanned (users (fst (snd
        (testModerate 1000 ''hi'' ''u1'' ''u1'' redVerdict dbMute5Ban10)))) = [True]"
  by (simp add: dbMute5Ban10_def ex_defs op_defs applicableRule_def handleMessage_def
      testModerate_def)

text \<open>
  Claim C7, amended. When the store accepts the ledger write (the new total fits the
  32-bit column, the strings written hold no NUL character) and the applicable rule,
  the first rule met in descending threshold order, is a ban: the test route sets the
  user's \<open>isBanned\<close>, appends one ban row to the punishments and stops, reporting the
  ban; the Discord handler, when the platform's ban call succeeds, appends one ban row
  and stops, reporting the ban.
\<close>

theorem C7_ban_applied:
  assumes "warningLevel verdict \<noteq> ''none''"
      and "findLevel db (warningLevel verdict) = Some level"
      and "applicableRule (totalAfter db i level) (activeRulesDesc db) = Some r"
      and "ptype r = Ban"
      and "int32 (totalAfter db i level)"
      and "storable i" and "storable n"
  shows "(content \<noteq> [] \<and> i \<noteq> [] \<and> n \<noteq> []
          \<and> storable content \<and> storable (aRuleTriggered verdict) \<longrightarrow>
            fst (testModerate now content i n verdict db)
              = ModerateResult (warningLevel verdict) (levelPoints level) (totalAfter db i level)
                  (Some Ban)
          \<and> (\<exists>u. findUser (fst (snd (testModerate now content i n verdict db))) i = Some u
                 \<and> isBanned u \<and> totalPoints u = totalAfter db i level)
          \<and> punishments (fst (snd (testModerate now content i n verdict db)))
              = punishments db @ [banRow i ''Exceeded maximum warning points''])
     \<and> (exec Ban (duration r) \<longrightarrow>
            fst (handleMessage exec now i n verdict db) = Notified (totalAfter db i level) (Some Ban)
          \<and> punishments (fst (snd (handleMessage exec now i n verdict db)))
              = punishments db @ [banRow i ''Accumulated warning points''])"
proof (intro conjI impI)
  let ?t = "totalAfter db i level"
  let ?w = "warningRecorded now i n level verdict content db"
  assume ne: "content \<noteq> [] \<and> i \<noteq> [] \<and> n \<noteq> []
          \<and> storable content \<and> storable (aRuleTriggered verdict)"
  have tm: "testModerate now content i n verdict db =
     (ModerateResult (warningLevel verdict) (levelPoints level) ?t (Some Ban),
      insertPunishment (banRow i ''Exceeded maximum warning points'')
        (updateUsers i (\<lambda>u. u\<lparr>isBanned := True\<rparr>) ?w), [])"
    using ne assms
    by (simp add: testModerate_level_found moderateLoop_ban[OF assms(3) assms(4)])
  show "fst (testModerate now content i n verdict db)
          = ModerateResult (warningLevel verdict) (levelPoints level) ?t (Some Ban)"
    by (simp add: tm)
  from findUser_warningRecorded[of now i n level verdict content db] obtain u where
    u: "findUser ?w i = Some u" "totalPoints u = ?t" by blast
  have "findUser (fst (snd (testModerate now content i n verdict db))) i
      = Some (u\<lparr>isBanned := True\<rparr>)"
    using u(1) by (simp add: tm findUser_def insertPunishment_def updateUsers_def
        findUser_updateUsers[unfolded findUser_def updateUsers_def, simplified])
  then show "\<exists>u. findUser (fst (snd (testModerate now content i n verdict db))) i = Some u
                 \<and> isBanned u \<and> totalPoints u = ?t"
    using u(2) by simp
  show "punishments (fst (snd (testModerate now content i n verdict db)))
          = punishments db @ [banRow i ''Exceeded maximum warning points'']"
    by (simp add: tm insertPunishment_def updateUsers_def punishments_warningRecorded)
next
  let ?t = "totalAfter db i level"
  let ?l = "ledgerWritten i n ?t db"
  assume e: "exec Ban (duration r)"
  have hm: "handleMessage exec now i n verdict db =
      (Notified ?t (Some Ban), insertPunishment (banRow i ''Accumulated warning points'') ?l, [])"
    by (simp add: handleMessage_level_found[OF assms(1) assms(2) assms(5) assms(6) assms(7)]
        punishLoop_ban[where exec = exec, OF assms(3) assms(4) e])
  show "fst (handleMessage exec now i n verdict db) = Notified ?t (Some Ban)"
    by (simp add: hm)
  show "punishments (fst (snd (handleMessage exec now i n verdict db)))
          = punishments db @ [banRow i ''Accumulated warning points'']"
    by (simp add: hm insertPunishment_def punishments_ledgerWritten)
qed

theorem C7_ban_applied_witness:
  "warningLevel redVerdict \<noteq> ''none''
   \<and> findLevel dbMute5Ban10 (warningLevel redVerdict) = Some redLevel
   \<and> applicableRule (totalAfter dbMute5Ban10 ''u1'' redLevel) (activeRulesDesc dbMute5Ban10)
       = Some (mkRule 2 Ban 10 None True)
   \<and> ptype (mkRule 2 Ban 10 None True) = Ban
   \<and> int32 (totalAfter dbMute5Ban10 ''u1'' redLevel)
   \<and> storable ''u1'' \<and> storable ''hi'' \<and> storable (aRuleTriggered redVerdict)
   \<and> callSucceeds Ban None
   \<and> fst (testModerate 1000 ''hi'' ''u1'' ''u1'' redVerdict dbMute5Ban10)
       = ModerateResult ''red'' 5 10 (Some Ban)
   \<and> (\<exists>u. findUser (fst (snd (testModerate 1000 ''hi'' ''u1'' ''u1'' redVerdict dbMute5Ban10)))
              ''u1'' = Some u \<and> isBanned u \<and> totalPoints u = 10)
   \<and> punishments (fst (snd (testModerate 1000 ''hi'' ''u1'' ''u1'' redVerdict dbMute5Ban10)))
       = [banRow ''u1'' ''Exceeded maximum warning points'']
   \<and> fst (handleMessage callSucceeds 1000 ''u1'' ''u1'' redVerdict dbMute5Ban10)
       = Notified 10 (Some Ban)
   \<and> punishments (fst (snd (handleMessage callSucceeds 1000 ''u1'' ''u1'' redVerdict dbMute5Ban10)))
       = [banRow ''u1'' ''Accumulated warning points'']"
proof -
  have h1: "warningLevel redVerdict \<noteq> ''none''"
    by (simp add: redVerdict_def)
  have h2: "findLevel dbMute5Ban10 (warningLevel redVerdict) = Some redLevel"
    by (simp add: dbMute5Ban10_def ex_defs findLevel_def redLevel_def)
  have t: "totalAfter dbMute5Ban10 ''u1'' redLevel = 10"
    by (simp add: dbMute5Ban10_def ex_defs totalAfter_def findUser_def redLevel_def)
  have h3: "applicableRule (totalAfter dbMute5Ban10 ''u1'' redLevel) (activeRulesDesc dbMute5Ban10)
      = Some (mkRule 2 Ban 10 None True)"
    unfolding t by (simp add: dbMute5Ban10_def ex_defs applicableRule_def activeRulesDesc_def)
  have h4: "ptype (mkRule 2 Ban 10 None True) = Ban"
    by (simp add: mkRule_def)
  have h5: "callSucceeds Ban (duration (mkRule 2 Ban 10 None True))"
    by (simp add: callSucceeds_def)
  have h6: "''hi'' \<noteq> [] \<and> ''u1'' \<noteq> [] \<and> ''u1'' \<noteq> []
      \<and> storable ''hi'' \<and> storable (aRuleTriggered redVerdict)"
    by (simp add: storable_def redVerdict_def)
  have h8: "storable ''u1''"
    by (simp add: storable_def)
  have p: "punishments dbMute5Ban10 = []" "levelPoints redLevel = 5" "warningLevel redVerdict = ''red''"
    by (simp_all add: dbMute5Ban10_def ex_defs redLevel_def)
  have h7: "int32 (totalAfter dbMute5Ban10 ''u1'' redLevel)"
    unfolding t by (simp add: int32_def)
  note T = C7_ban_applied[OF h1 h2 h3 h4 h7 h8 h8, of "''hi''" 1000 callSucceeds, unfolded t p]
  from T h6 h5 have c:
    "fst (testModerate 1000 ''hi'' ''u1'' ''u1'' redVerdict dbMute5Ban10)
       = ModerateResult ''red'' 5 10 (Some Ban)
     \<and> (\<exists>u. findUser (fst (snd (testModerate 1000 ''hi'' ''u1'' ''u1'' redVerdict dbMute5Ban10)))
              ''u1'' = Some u \<and> isBanned u \<and> totalPoints u = 10)
     \<and> punishments (fst (snd (testModerate 1000 ''hi'' ''u1'' ''u1'' redVerdict dbMute5Ban10)))
       = [] @ [banRow ''u1'' ''Exceeded maximum warning points'']
     \<and> fst (handleMessage callSucceeds 1000 ''u1'' ''u1'' redVerdict dbMute5Ban10)
       = Notified 10 (Some Ban)
     \<and> punishments (fst (snd (handleMessage callSucceeds 1000 ''u1'' ''u1'' redVerdict dbMute5Ban10)))
       = [] @ [banRow ''u1'' ''Accumulated warning points'']"
    by blast
  from h1 h2 h3 h4 h7 h8 h6 c show ?thesis by (simp add: callSucceeds_def)
qed

section \<open>C1: the total and the sum of the live warnings\<close>

text \<open>
  Where the store accepts the writes, the test route keeps the total equal to the sum of
  the live warnings, and so does ignoreWarning on a warning that is not yet ignored, in a
  store whose warning ids are distinct. recalculate and resetWarnings, when they
  succeed, establish the equality from any state.
\<close>

lemma pointsSum_warnings: "warnings db' = warnings db \<Longrightarrow> pointsSum db' i = pointsSum db i"
  by (simp add: pointsSum_def activeWarnings_def)

lemma moderateLoop_warnings: "warnings (fst (moderateLoop now i user t rules db)) = warnings db"
  by (induction rules) (simp_all add: insertPunishment_def updateUsers_def)

lemma findUser_insertPunishment [simp]: "findUser (insertPunishment p db) j = findUser db j"
  by (simp add: findUser_def insertPunishment_def)

lemma moderateLoop_totalPoints:
  "map_option totalPoints (findUser (fst (moderateLoop now i user t rules db)) j)
     = map_option totalPoints (findUser db j)"
  by (induction rules) (auto simp: findUser_updateUsers option.map_comp comp_def)

lemma pointsSum_warningRecorded:
  "pointsSum (warningRecorded now i n level verdict content db) i = pointsSum db i + levelPoints level"
  by (simp add: warningRecorded_def pointsSum_sum_list activeWarnings_def updateUsers_def
      insertWarning_def insertUser_def split: option.splits)

lemma testModerate_keeps_sum:
  assumes "content \<noteq> []" "i \<noteq> []" "n \<noteq> []"
      and "warningLevel verdict \<noteq> ''none''"
      and "findLevel db (warningLevel verdict) = Some level"
      and "(case findUser db i of None \<Rightarrow> 0 | Some u \<Rightarrow> totalPoints u) = pointsSum db i"
      and "int32 (totalAfter db i level)"
      and "storable i" and "storable n"
      and "storable content" and "storable (aRuleTriggered verdict)"
  shows "\<exists>u. findUser (fst (snd (testModerate now content i n verdict db))) i = Some u
       \<and> totalPoints u = pointsSum (fst (snd (testModerate now content i n verdict db))) i"
proof -
  let ?t = "totalAfter db i level"
  let ?w = "warningRecorded now i n level verdict content db"
  let ?m = "fst (moderateLoop now i (userOrNew db i n) ?t (activeRulesDesc db) ?w)"
  have d: "fst (snd (testModerate now content i n verdict db)) = ?m"
    using assms(1-5) assms(7-11) by (simp add: testModerate_level_found)
  have s: "pointsSum ?m i = pointsSum db i + levelPoints level"
    using pointsSum_warnings[OF moderateLoop_warnings] by (simp add: pointsSum_warningRecorded)
  from findUser_warningRecorded[of now i n level verdict content db] obtain u where
    u: "findUser ?w i = Some u" "totalPoints u = ?t" by blast
  have "map_option totalPoints (findUser ?m i) = Some ?t"
    using u by (simp add: moderateLoop_totalPoints)
  then obtain u' where "findUser ?m i = Some u'" "totalPoints u' = ?t" by auto
  moreover have "?t = pointsSum ?m i"
    using assms(6) s by (simp add: totalAfter_def)
  ultimately show ?thesis by (simp add: d)
qed

lemma map_mark_absent:
  "i \<notin> wid ` set ws \<Longrightarrow> map (\<lambda>x. if wid x = i then f x else x) ws = ws"
  by (induction ws) auto

lemma sum_live_after_mark:
  assumes "distinct (map wid ws)" and "find (\<lambda>x. wid x = i) ws = Some w"
      and "\<not> messageIgnored w" and "\<And>x. userId (f x) = userId x"
      and "\<And>x. messageIgnored (f x)"
  shows "sum_list (map points (filter (\<lambda>x. userId x = j \<and> \<not> messageIgnored x)
            (map (\<lambda>x. if wid x = i then f x else x) ws)))
       = sum_list (map points (filter (\<lambda>x. userId x = j \<and> \<not> messageIgnored x) ws))
           - (if userId w = j then points w else 0)"
  using assms(1-3)
proof (induction ws)
  case Nil
  then show ?case by simp
next
  case (Cons a ws)
  show ?case
  proof (cases "wid a = i")
    case True
    with Cons.prems have aw: "a = w" and "i \<notin> wid ` set ws" by auto
    then have "map (\<lambda>x. if wid x = i then f x else x) ws = ws" by (simp add: map_mark_absent)
    with True aw Cons.prems(3) show ?thesis by (simp add: assms(4) assms(5))
  next
    case False
    with Cons.prems have "find (\<lambda>x. wid x = i) ws = Some w" "distinct (map wid ws)" by simp_all
    with Cons.IH Cons.prems(3) have ih: "sum_list (map points (filter (\<lambda>x. userId x = j \<and> \<not> messageIgnored x)
            (map (\<lambda>x. if wid x = i then f x else x) ws)))
       = sum_list (map points (filter (\<lambda>x. userId x = j \<and> \<not> messageIgnored x) ws))
           - (if userId w = j then points w else 0)" by simp
    with False show ?thesis by simp
  qed
qed

lemma warnings_ignoreWarning:
  assumes "reviewer \<noteq> []" "why \<noteq> []"
      and "findWarning db i = Some w"
      and "findUser db (userId w) = Some user"
      and "isUserRef db reviewer"
      and "int32 i" and "int32 (totalPoints user - points w)"
      and "storable reviewer" and "storable why"
  shows "warnings (snd (ignoreWarning now i reviewer why db))
     = map (\<lambda>x. if wid x = i
                  then x\<lparr>messageIgnored := True, ignoredAt := Some now,
                          ignoredBy := Some reviewer, ignoreReason := Some why\<rparr>
                  else x) (warnings db)"
proof -
  have u: "warnings (updateUsers k g d) = warnings d" for k g d
    by (simp add: updateUsers_def)
  have w: "warnings (updateWarnings P g d) = map (\<lambda>x. if P x then g x else x) (warnings d)"
    for P g d
    by (simp add: updateWarnings_def)
  show ?thesis
    using assms
    by (simp add: ignoreWarning_def Let_def findWarning_updateWarnings_wid u w)
qed

lemma ignoreWarning_keeps_sum:
  assumes "reviewer \<noteq> []" "why \<noteq> []"
      and "findWarning db i = Some w"
      and "findUser db (userId w) = Some user"
      and "isUserRef db reviewer"
      and "\<not> messageIgnored w"
      and "distinct (map wid (warnings db))"
      and "totalPoints user = pointsSum db (userId w)"
      and "int32 i" and "int32 (totalPoints user - points w)"
      and "storable reviewer" and "storable why"
  shows "\<exists>u. findUser (snd (ignoreWarning now i reviewer why db)) (userId w) = Some u
       \<and> totalPoints u = pointsSum (snd (ignoreWarning now i reviewer why db)) (userId w)"
proof -
  let ?f = "\<lambda>x. x\<lparr>messageIgnored := True, ignoredAt := Some now,
                    ignoredBy := Some reviewer, ignoreReason := Some why\<rparr>"
  let ?db = "snd (ignoreWarning now i reviewer why db)"
  have fw: "find (\<lambda>x. wid x = i) (warnings db) = Some w"
    using assms(3) by (simp only: findWarning_def)
  have a: "pointsSum ?db (userId w)
      = sum_list (map points (filter (\<lambda>x. userId x = userId w \<and> \<not> messageIgnored x)
            (map (\<lambda>x. if wid x = i then ?f x else x) (warnings db))))"
    by (simp only: pointsSum_sum_list activeWarnings_def warnings_ignoreWarning[OF assms(1-5) assms(9-12)])
  have b: "sum_list (map points (filter (\<lambda>x. userId x = userId w \<and> \<not> messageIgnored x)
            (map (\<lambda>x. if wid x = i then ?f x else x) (warnings db))))
      = sum_list (map points (filter (\<lambda>x. userId x = userId w \<and> \<not> messageIgnored x)
            (warnings db))) - (if userId w = userId w then points w else 0)"
    by (rule sum_live_after_mark[OF assms(7) fw assms(6)]) simp_all
  have c: "pointsSum ?db (userId w) = pointsSum db (userId w) - points w"
    using trans[OF a b] by (simp add: pointsSum_sum_list activeWarnings_def)
  have t: "map_option totalPoints (findUser ?db (userId w)) = Some (totalPoints user - points w)"
    by (simp add: ignoreWarning_accepted(2)[OF assms(1-5) assms(9-12)])
  then obtain u where "findUser ?db (userId w) = Some u" "totalPoints u = totalPoints user - points w"
    by auto
  with c assms(8) show ?thesis by simp
qed

text \<open>
  Claim C1 fails on the code in two places. Ignoring a warning that is already ignored
  subtracts its points a second time: a user at 0 points, equal to the sum of the live
  warnings, ends at -5. The Discord handler adds the level's points to the total and
  inserts no warning row: a user at 5 points with one live warning of 5 ends at 10 with
  a sum of 5, where the test route inserts the row and ends with a sum of 10.
\<close>

theorem C1_sum_invariant_broken:
  "map totalPoints (users dbOnceIgnored) = [0, 0]
   \<and> pointsSum dbOnceIgnored ''u1'' = 0
   \<and> map totalPoints (users (snd (ignoreWarning 1000 1 ''mod1'' ''again'' dbOnceIgnored))) = [- 5, 0]
   \<and> pointsSum (snd (ignoreWarning 1000 1 ''mod1'' ''again'' dbOnceIgnored)) ''u1'' = 0
   \<and> map totalPoints (users dbMute5Ban10) = [5]
   \<and> pointsSum dbMute5Ban10 ''u1'' = 5
   \<and> map totalPoints (users (fst (snd
        (handleMessage callSucceeds 1000 ''u1'' ''u1'' redVerdict dbMute5Ban10)))) = [10]
   \<and> pointsSum (fst (snd (handleMessage callSucceeds 1000 ''u1'' ''u1'' redVerdict dbMute5Ban10)))
        ''u1'' = 5
   \<and> pointsSum (fst (snd (testModerate 1000 ''hi'' ''u1'' ''u1'' redVerdict dbMute5Ban10)))
        ''u1'' = 10"
  by (simp add: dbOnceIgnored_def dbMute5Ban10_def ex_defs op_defs ignoreWarning_def
      handleMessage_def testModerate_def)

section \<open>C2: ignoring a warning twice\<close>

lemma ignoreWarning_not_found:
  "reviewer \<noteq> [] \<Longrightarrow> why \<noteq> [] \<Longrightarrow> int32 i \<Longrightarrow> findWarning db i = None \<Longrightarrow>
   ignoreWarning now i reviewer why db = (Status 404 ''Warning not found'', db)"
  by (simp add: ignoreWarning_def)

text \<open>
  Claim C2 fails on the code in its second half. A missing warning is answered with 404
  and no write. A warning that is already ignored is ignored again: the route answers
  with the warning, the reviewer, time and reason of the first review are overwritten,
  and the user's total drops by the warning's points once more.
\<close>

theorem C2_second_ignore_accepted:
  "findWarning dbOnceIgnored 1 = Some (mkWarning 1 ''u1'' 5 (Some ''mod1''))
   \<and> messageIgnored (mkWarning 1 ''u1'' 5 (Some ''mod1''))
   \<and> fst (ignoreWarning 1000 1 ''u1'' ''again'' dbOnceIgnored)
       = WarningJson ((mkWarning 1 ''u1'' 5 (Some ''mod1''))
           \<lparr>ignoredAt := Some 1000, ignoredBy := Some ''u1'', ignoreReason := Some ''again''\<rparr>)
   \<and> map ignoredBy (warnings (snd (ignoreWarning 1000 1 ''u1'' ''again'' dbOnceIgnored)))
       = [Some ''u1'']
   \<and> map totalPoints (users dbOnceIgnored) = [0, 0]
   \<and> map totalPoints (users (snd (ignoreWarning 1000 1 ''u1'' ''again'' dbOnceIgnored))) = [- 5, 0]
   \<and> ignoreWarning 1000 7 ''u1'' ''again'' dbOnceIgnored
       = (Status 404 ''Warning not found'', dbOnceIgnored)"
  by (simp add: dbOnceIgnored_def ex_defs op_defs ignoreWarning_def)

end
